theory Spec2Isabelle
  imports Main "HOL-Library.Sublist" "HOL-Library.Word"
begin

section \<open>The IoTConnect relay client (iotc\_relay\_client.c)\<close>

text \<open>
  A shallow embedding of the C client library. A C string is modelled by the list of the
  characters that precede its terminating NUL, so a value of type \<open>string\<close> that stands for
  a \<^verbatim>\<open>char *\<close> holds no NUL; a pointer that may be \<^verbatim>\<open>NULL\<close> is an \<open>option\<close>. Raw bytes read
  from the socket may hold a NUL and are cut there by \<open>c_str\<close> where the source hands
  them to a string function. \<^verbatim>\<open>malloc\<close> and \<^verbatim>\<open>calloc\<close> are modelled as succeeding: the
  branches of the source that test the result of \<^verbatim>\<open>malloc\<close> are kept, and the allocation
  itself never yields \<open>None\<close>.
  The mutex and the threads are not modelled; the two thread bodies are functions of the
  inputs that the operating system hands them, one list element per loop iteration.
\<close>

subsection \<open>Constants of iotc\_relay\_client.h\<close>

definition IOTC_RELAY_MAX_PATH :: nat where
  "IOTC_RELAY_MAX_PATH = 256"

definition IOTC_RELAY_MAX_CLIENT_ID :: nat where
  "IOTC_RELAY_MAX_CLIENT_ID = 64"

definition IOTC_RELAY_BUFFER_SIZE :: nat where
  "IOTC_RELAY_BUFFER_SIZE = 4096"

datatype IotcRelayError =
    IOTC_RELAY_SUCCESS
  | IOTC_RELAY_ERROR_SOCKET
  | IOTC_RELAY_ERROR_CONNECT
  | IOTC_RELAY_ERROR_SEND
  | IOTC_RELAY_ERROR_RECV
  | IOTC_RELAY_ERROR_JSON
  | IOTC_RELAY_ERROR_DISCONNECTED
  | IOTC_RELAY_ERROR_INVALID_PARAM

fun error_code :: "IotcRelayError \<Rightarrow> int" where
  "error_code IOTC_RELAY_SUCCESS = 0"
| "error_code IOTC_RELAY_ERROR_SOCKET = -1"
| "error_code IOTC_RELAY_ERROR_CONNECT = -2"
| "error_code IOTC_RELAY_ERROR_SEND = -3"
| "error_code IOTC_RELAY_ERROR_RECV = -4"
| "error_code IOTC_RELAY_ERROR_JSON = -5"
| "error_code IOTC_RELAY_ERROR_DISCONNECTED = -6"
| "error_code IOTC_RELAY_ERROR_INVALID_PARAM = -7"

subsection \<open>C library string functions\<close>

abbreviation NUL :: char where
  "NUL \<equiv> CHR 0x00"

abbreviation newline :: char where
  "newline \<equiv> CHR 0x0A"

abbreviation tab :: char where
  "tab \<equiv> CHR 0x09"

abbreviation dquote :: char where
  "dquote \<equiv> CHR 0x22"

text \<open>The C string held by a byte buffer: the bytes before the first NUL.\<close>

definition c_str :: "string \<Rightarrow> string" where
  "c_str bytes = takeWhile (\<lambda>b. b \<noteq> NUL) bytes"

text \<open>\<^verbatim>\<open>snprintf(buf, size, ...)\<close> stores at most \<open>size - 1\<close> characters of the formatted text.\<close>

definition snprintf :: "nat \<Rightarrow> string \<Rightarrow> string" where
  "snprintf n formatted = take (n - 1) formatted"

text \<open>\<^verbatim>\<open>strncpy\<close> into a zeroed buffer: at most \<open>n\<close> characters are copied.\<close>

definition strncpy :: "string \<Rightarrow> nat \<Rightarrow> string" where
  "strncpy src n = take n src"

text \<open>\<^verbatim>\<open>strncat(dest, src, n)\<close> appends at most \<open>n\<close> characters of the C string \<open>src\<close>.\<close>

definition strncat :: "string \<Rightarrow> string \<Rightarrow> nat \<Rightarrow> string" where
  "strncat dest src n = dest @ take n (c_str src)"

text \<open>
  \<^verbatim>\<open>strstr(haystack, needle)\<close>: the suffix of the haystack that starts at the first
  occurrence of the needle, \<open>None\<close> for \<^verbatim>\<open>NULL\<close>.
\<close>

fun strstr :: "string \<Rightarrow> string \<Rightarrow> string option" where
  "strstr [] needle = (if needle = [] then Some [] else None)"
| "strstr (c # cs) needle =
     (if prefix needle (c # cs) then Some (c # cs) else strstr cs needle)"

text \<open>
  \<^verbatim>\<open>strchr(s, ch)\<close> for a character other than NUL: the suffix that starts at the first
  occurrence, \<open>None\<close> for \<^verbatim>\<open>NULL\<close>.
\<close>

definition strchr :: "string \<Rightarrow> char \<Rightarrow> string option" where
  "strchr s ch = (if ch \<in> set s then Some (dropWhile (\<lambda>x. x \<noteq> ch) s) else None)"

text \<open>
  \<^verbatim>\<open>strrchr(s, ch)\<close> for a character other than NUL, as the offset of the last occurrence
  from the start of \<open>s\<close>.
\<close>

definition strrchr :: "string \<Rightarrow> char \<Rightarrow> nat option" where
  "strrchr s ch =
     (if ch \<in> set s then Some (length s - 1 - length (takeWhile (\<lambda>x. x \<noteq> ch) (rev s)))
      else None)"

subsection \<open>Envelope encoding\<close>

definition create_json_telemetry :: "string \<Rightarrow> string \<Rightarrow> string option" where
  \<open>create_json_telemetry client_id data =
     (let len = 256 + length client_id + length data
      in Some (snprintf len
           (''{"type":"telemetry","client_id":"'' @ client_id @ ''","data":'' @ data
              @ ''}'' @ [newline])))\<close>

definition create_json_register :: "string \<Rightarrow> string option" where
  \<open>create_json_register client_id =
     (let len = 128 + length client_id
      in Some (snprintf len
           (''{"type":"register","client_id":"'' @ client_id @ ''"}'' @ [newline])))\<close>

subsection \<open>The client structure\<close>

text \<open>
  \<^verbatim>\<open>struct IotcRelayClient\<close> without its thread handles and its mutex. The callback is a
  function pointer that may be \<^verbatim>\<open>NULL\<close>; what a call of it does is a change of the state
  \<open>'u\<close> that its \<^verbatim>\<open>user_data\<close> argument gives it access to.
\<close>

record 'u client =
  socket_path :: string
  client_id :: string
  sockfd :: int
  is_connected :: bool
  is_running :: bool
  command_callback :: "(string \<Rightarrow> string \<Rightarrow> 'u \<Rightarrow> 'u) option"
  user_data :: 'u
  reconnect_delay :: int

subsection \<open>Envelope decoding\<close>

definition is_blank :: "char \<Rightarrow> bool" where
  "is_blank ch = (ch = CHR '' '' \<or> ch = tab)"

text \<open>
  The loop that walks back from the last character while it is a blank and the first
  character is not reached.
\<close>

fun trim_trailing :: "string \<Rightarrow> string" where
  "trim_trailing [] = []"
| "trim_trailing (c # cs) = c # rev (dropWhile is_blank (rev cs))"

definition find_json_value :: "string \<Rightarrow> string \<Rightarrow> string option" where
  \<open>find_json_value json key =
     (let search = snprintf 128 ([dquote] @ key @ [dquote] @ '':'')
      in case strstr json search of
           None \<Rightarrow> None
         | Some found \<Rightarrow>
             (let start = dropWhile is_blank (drop (length search) found)
              in case start of
                   [] \<Rightarrow> Some (trim_trailing [])
                 | c # rest \<Rightarrow>
                     if c = dquote then
                       (case strchr rest dquote of
                          None \<Rightarrow> None
                        | Some e \<Rightarrow> Some (strncpy rest (length rest - length e)))
                     else
                       Some (trim_trailing
                         (takeWhile
                            (\<lambda>x. x \<noteq> CHR '','' \<and> x \<noteq> CHR ''}'' \<and> x \<noteq> newline) start))))\<close>

definition handle_server_message :: "'u client \<Rightarrow> string \<Rightarrow> 'u client" where
  \<open>handle_server_message client message =
     (case find_json_value message ''type'' of
        None \<Rightarrow> client
      | Some ty \<Rightarrow>
          if ty = ''command'' then
            (let command_name = find_json_value message ''command_name'';
                 parameters = find_json_value message ''parameters''
             in case (command_name, command_callback client) of
                  (Some name, Some callback) \<Rightarrow>
                    client\<lparr>user_data :=
                      callback name (case parameters of Some p \<Rightarrow> p | None \<Rightarrow> [])
                        (user_data client)\<rparr>
                | _ \<Rightarrow> client)
          else client)\<close>

subsection \<open>The receive loop\<close>

text \<open>
  What one call of \<^verbatim>\<open>recv\<close> gives the loop: the bytes it stored (at most
  \<open>IOTC_RELAY_BUFFER_SIZE - 1\<close> of them, the size the loop asks for), or a return value
  that is zero or negative. No bytes stored is the return value zero.
\<close>

datatype recv_result = Recv_bytes string | Recv_closed

text \<open>
  The inner loop: while the accumulation buffer holds a newline, the text before it is
  handled as one message and the buffer is moved down past the newline.
\<close>

function drain :: "'u client \<Rightarrow> string \<Rightarrow> 'u client \<times> string" where
  "drain client message_buffer =
     (case strchr message_buffer newline of
        None \<Rightarrow> (client, message_buffer)
      | Some nl \<Rightarrow>
          drain
            (handle_server_message client
               (take (length message_buffer - length nl) message_buffer))
            (tl nl))"
  by pat_completeness auto
termination
proof (relation "measure (\<lambda>(client, message_buffer). length message_buffer)")
  show "wf (measure (\<lambda>(client :: 'u client, message_buffer :: string). length message_buffer))"
    by simp
next
  fix client :: "'u client" and message_buffer nl :: string
  assume "strchr message_buffer newline = Some nl"
  then have nl: "nl = dropWhile (\<lambda>x. x \<noteq> newline) message_buffer" and "newline \<in> set message_buffer"
    by (auto simp: strchr_def split: if_splits)
  then have "nl \<noteq> []"
    by simp
  then have "length (tl nl) < length nl"
    by (cases nl) auto
  also have "length nl \<le> length message_buffer"
    unfolding nl by (rule length_dropWhile_le)
  finally show
    "((handle_server_message client
         (take (length message_buffer - length nl) message_buffer), tl nl),
      (client, message_buffer))
     \<in> measure (\<lambda>(client, message_buffer). length message_buffer)"
    by simp
qed

text \<open>
  The outer loop, one list element per call of \<^verbatim>\<open>recv\<close>. The loop ends when the client
  is no longer running or connected, or when \<^verbatim>\<open>recv\<close> returns no data, which clears the
  connection flag; when the list is used up the thread is waiting in \<^verbatim>\<open>recv\<close>. The
  result is the client and the accumulation buffer at that moment. The buffer has
  \<open>2 * IOTC_RELAY_BUFFER_SIZE\<close> bytes, one of them for the terminating NUL.
\<close>

fun receive_loop :: "'u client \<Rightarrow> string \<Rightarrow> recv_result list \<Rightarrow> 'u client \<times> string" where
  "receive_loop client message_buffer [] = (client, message_buffer)"
| "receive_loop client message_buffer (r # rs) =
     (if is_running client \<and> is_connected client then
        (case r of
           Recv_closed \<Rightarrow> (client\<lparr>is_connected := False\<rparr>, message_buffer)
         | Recv_bytes buffer \<Rightarrow>
             if buffer = [] then (client\<lparr>is_connected := False\<rparr>, message_buffer)
             else
               (case drain client
                       (strncat message_buffer buffer
                          (IOTC_RELAY_BUFFER_SIZE * 2 - length message_buffer - 1)) of
                  (client', message_buffer') \<Rightarrow> receive_loop client' message_buffer' rs))
      else (client, message_buffer))"

definition receive_thread_func :: "'u client \<Rightarrow> recv_result list \<Rightarrow> 'u client \<times> string" where
  "receive_thread_func client rs = receive_loop client [] rs"

subsection \<open>Transport resolver\<close>

text \<open>
  \<^verbatim>\<open>atoi\<close> of the C library, which glibc defines as \<^verbatim>\<open>(int) strtol(nptr, NULL, 10)\<close>.
  \<^verbatim>\<open>strtol\<close> skips white space, reads an optional sign and then decimal digits as long as
  there are any (no digit gives 0); a number outside the range of the 64-bit \<^verbatim>\<open>long\<close> is
  replaced by \<^verbatim>\<open>LONG_MAX\<close> or \<^verbatim>\<open>LONG_MIN\<close>. The conversion to the 32-bit \<^verbatim>\<open>int\<close> keeps the low
  32 bits; the \<^verbatim>\<open>int\<close> is a \<open>32 word\<close>, read as a signed number by \<open>sint\<close>.
\<close>

definition isspace :: "char \<Rightarrow> bool" where
  "isspace ch =
     (ch = CHR '' '' \<or> ch = tab \<or> ch = newline \<or> ch = CHR 0x0B \<or> ch = CHR 0x0C \<or> ch = CHR 0x0D)"

definition isdigit :: "char \<Rightarrow> bool" where
  "isdigit ch = (48 \<le> (of_char ch :: nat) \<and> (of_char ch :: nat) \<le> 57)"

fun digits_value :: "int \<Rightarrow> string \<Rightarrow> int" where
  "digits_value acc [] = acc"
| "digits_value acc (ch # cs) =
     (if isdigit ch then digits_value (acc * 10 + (of_char ch - 48)) cs else acc)"

definition LONG_MAX :: int where
  "LONG_MAX = 2 ^ 63 - 1"

definition LONG_MIN :: int where
  "LONG_MIN = - (2 ^ 63)"

definition strtol :: "string \<Rightarrow> int" where
  "strtol s =
     (let t = dropWhile isspace s
      in if t \<noteq> [] \<and> hd t = CHR ''-'' then max LONG_MIN (- digits_value 0 (tl t))
         else if t \<noteq> [] \<and> hd t = CHR ''+'' then min LONG_MAX (digits_value 0 (tl t))
         else min LONG_MAX (digits_value 0 t))"

definition atoi :: "string \<Rightarrow> 32 word" where
  "atoi s = word_of_int (strtol s)"

text \<open>
  \<^verbatim>\<open>parse_tcp_target(path, host, host_len, port)\<close>: \<open>None\<close> for the return value 0, and the
  host and the \<^verbatim>\<open>int\<close> port written through the pointers for the return value 1.
\<close>

definition parse_tcp_target :: "string \<Rightarrow> nat \<Rightarrow> (string \<times> 32 word) option" where
  "parse_tcp_target path host_len =
     (let pfx = ''tcp://''
      in if take (length pfx) path \<noteq> pfx then None
         else
           (let start = drop (length pfx) path
            in case strrchr start CHR '':'' of
                 None \<Rightarrow> None
               | Some colon \<Rightarrow>
                   if colon = 0 then None
                   else
                     (let hlen = (if colon \<ge> host_len then host_len - 1 else colon)
                      in Some (strncpy start hlen, atoi (drop (colon + 1) start)))))"

subsection \<open>The operating system\<close>

text \<open>
  The system calls the client makes are recorded in the order they are made, together with
  the set of descriptors that are open. What a call returns is an input of the model.
\<close>

datatype domain = AF_INET | AF_UNIX

datatype sockaddr = Sockaddr_in string "16 word" | Sockaddr_un string

datatype syscall =
    Sys_socket domain
  | Sys_connect int sockaddr
  | Sys_close int
  | Sys_send int string

record os_state =
  open_fds :: "int set"
  calls :: "syscall list"

text \<open>\<^verbatim>\<open>socket\<close> returns a new descriptor, or \<open>-1\<close> when it fails.\<close>

definition sys_socket :: "domain \<Rightarrow> nat option \<Rightarrow> os_state \<Rightarrow> int \<times> os_state" where
  "sys_socket d ret os =
     (case ret of
        None \<Rightarrow> (- 1, os\<lparr>calls := calls os @ [Sys_socket d]\<rparr>)
      | Some fd \<Rightarrow>
          (int fd, os\<lparr>open_fds := insert (int fd) (open_fds os), calls := calls os @ [Sys_socket d]\<rparr>))"

definition sys_connect :: "int \<Rightarrow> sockaddr \<Rightarrow> os_state \<Rightarrow> os_state" where
  "sys_connect fd addr os = os\<lparr>calls := calls os @ [Sys_connect fd addr]\<rparr>"

definition sys_close :: "int \<Rightarrow> os_state \<Rightarrow> os_state" where
  "sys_close fd os = os\<lparr>open_fds := open_fds os - {fd}, calls := calls os @ [Sys_close fd]\<rparr>"

definition sys_send :: "int \<Rightarrow> string \<Rightarrow> os_state \<Rightarrow> os_state" where
  "sys_send fd message os = os\<lparr>calls := calls os @ [Sys_send fd message]\<rparr>"

text \<open>The size of \<^verbatim>\<open>sun_path\<close> in \<^verbatim>\<open>struct sockaddr_un\<close> (Linux).\<close>

definition sizeof_sun_path :: nat where
  "sizeof_sun_path = 108"

text \<open>What the system answers during one call of \<^verbatim>\<open>connect_to_server\<close>.\<close>

record connect_env =
  socket_ret :: "nat option"
  inet_pton_ok :: bool
  gethostbyname_ok :: bool
  connect_ok :: bool
  send_ret :: int
  pthread_create_ok :: bool

subsection \<open>Connection manager\<close>

text \<open>
  \<^verbatim>\<open>send_message\<close>; \<open>sent\<close> is the value that \<^verbatim>\<open>send\<close> returns.
\<close>

definition send_message ::
  "int \<Rightarrow> 'u client \<Rightarrow> os_state \<Rightarrow> string \<Rightarrow> IotcRelayError \<times> 'u client \<times> os_state" where
  "send_message sent client os message =
     (let len = length message;
          os' = sys_send (sockfd client) message os
      in if sent < 0 \<or> nat sent \<noteq> len
         then (IOTC_RELAY_ERROR_SEND, client\<lparr>is_connected := False\<rparr>, os')
         else (IOTC_RELAY_SUCCESS, client, os'))"

definition disconnect_from_server :: "'u client \<Rightarrow> os_state \<Rightarrow> 'u client \<times> os_state" where
  "disconnect_from_server client os =
     (let client1 = client\<lparr>is_connected := False\<rparr>
      in if sockfd client1 \<ge> 0
         then (client1\<lparr>sockfd := - 1\<rparr>, sys_close (sockfd client1) os)
         else (client1, os))"

text \<open>
  \<^verbatim>\<open>connect_to_server\<close>. The two branches that open the transport either return early
  (\<open>Inl\<close>) or reach the common end of the function (\<open>Inr\<close>), which sets the connection
  flag, sends the register envelope and starts the receive thread.
\<close>

definition connect_to_server ::
  "connect_env \<Rightarrow> 'u client \<Rightarrow> os_state \<Rightarrow> IotcRelayError \<times> 'u client \<times> os_state" where
  "connect_to_server env client os =
     (let opened =
        (case parse_tcp_target (socket_path client) 256 of
           Some (host, port) \<Rightarrow>
             (case sys_socket AF_INET (socket_ret env) os of
                (fd, os1) \<Rightarrow>
                  (let client1 = client\<lparr>sockfd := fd\<rparr>
                   in if sockfd client1 < 0 then Inl (IOTC_RELAY_ERROR_SOCKET, client1, os1)
                      else if \<not> inet_pton_ok env \<and> \<not> gethostbyname_ok env
                      then Inl (IOTC_RELAY_ERROR_CONNECT, client1\<lparr>sockfd := - 1\<rparr>,
                                sys_close (sockfd client1) os1)
                      else
                        (let os2 = sys_connect (sockfd client1)
                                     (Sockaddr_in host (ucast port)) os1
                         in if \<not> connect_ok env
                            then Inl (IOTC_RELAY_ERROR_CONNECT, client1\<lparr>sockfd := - 1\<rparr>,
                                      sys_close (sockfd client1) os2)
                            else Inr (client1, os2))))
         | None \<Rightarrow>
             (case sys_socket AF_UNIX (socket_ret env) os of
                (fd, os1) \<Rightarrow>
                  (let client1 = client\<lparr>sockfd := fd\<rparr>
                   in if sockfd client1 < 0 then Inl (IOTC_RELAY_ERROR_SOCKET, client1, os1)
                      else
                        (let os2 = sys_connect (sockfd client1)
                                     (Sockaddr_un
                                        (strncpy (socket_path client1) (sizeof_sun_path - 1))) os1
                         in if \<not> connect_ok env
                            then Inl (IOTC_RELAY_ERROR_CONNECT, client1\<lparr>sockfd := - 1\<rparr>,
                                      sys_close (sockfd client1) os2)
                            else Inr (client1, os2)))))
      in case opened of
           Inl failure \<Rightarrow> failure
         | Inr (client1, os2) \<Rightarrow>
             (let client2 = client1\<lparr>is_connected := True\<rparr>;
                  (client3, os3) =
                    (case create_json_register (client_id client2) of
                       Some reg_msg \<Rightarrow> snd (send_message (send_ret env) client2 os2 reg_msg)
                     | None \<Rightarrow> (client2, os2))
              in if \<not> pthread_create_ok env
                 then (case disconnect_from_server client3 os3 of
                         (client4, os4) \<Rightarrow> (IOTC_RELAY_ERROR_SOCKET, client4, os4))
                 else (IOTC_RELAY_SUCCESS, client3, os3)))"

text \<open>
  The reconnect thread, one list element per turn of its loop: what the system answers if
  the turn calls \<^verbatim>\<open>connect_to_server\<close>.
\<close>

fun reconnect_thread_func :: "connect_env list \<Rightarrow> 'u client \<Rightarrow> os_state \<Rightarrow> 'u client \<times> os_state" where
  "reconnect_thread_func [] client os = (client, os)"
| "reconnect_thread_func (env # envs) client os =
     (if is_running client then
        (if \<not> is_connected client
         then (case connect_to_server env client os of
                 (result, client', os') \<Rightarrow> reconnect_thread_func envs client' os')
         else reconnect_thread_func envs client os)
      else (client, os))"

subsection \<open>Client facade\<close>

text \<open>
  A client handle is \<open>None\<close> for \<^verbatim>\<open>NULL\<close>. The cancellation of the threads in
  \<^verbatim>\<open>iotc_relay_client_stop\<close> is not modelled; after \<^verbatim>\<open>iotc_relay_client_destroy\<close> the
  structure is freed and no client is left.
\<close>

definition iotc_relay_client_create ::
  "string option \<Rightarrow> string option \<Rightarrow> (string \<Rightarrow> string \<Rightarrow> 'u \<Rightarrow> 'u) option \<Rightarrow> 'u \<Rightarrow> 'u client option" where
  "iotc_relay_client_create path ident callback data =
     (case (path, ident) of
        (Some p, Some i) \<Rightarrow>
          Some \<lparr>socket_path = strncpy p (IOTC_RELAY_MAX_PATH - 1),
                client_id = strncpy i (IOTC_RELAY_MAX_CLIENT_ID - 1),
                sockfd = - 1, is_connected = False, is_running = False,
                command_callback = callback, user_data = data, reconnect_delay = 5\<rparr>
      | _ \<Rightarrow> None)"

definition iotc_relay_client_start ::
  "connect_env \<Rightarrow> bool \<Rightarrow> 'u client option \<Rightarrow> os_state
     \<Rightarrow> IotcRelayError \<times> 'u client option \<times> os_state" where
  "iotc_relay_client_start env reconnect_thread_ok handle os =
     (case handle of
        None \<Rightarrow> (IOTC_RELAY_ERROR_INVALID_PARAM, None, os)
      | Some client \<Rightarrow>
          (case connect_to_server env (client\<lparr>is_running := True\<rparr>) os of
             (result, client1, os1) \<Rightarrow>
               if \<not> reconnect_thread_ok
               then (IOTC_RELAY_ERROR_SOCKET, Some (client1\<lparr>is_running := False\<rparr>), os1)
               else (IOTC_RELAY_SUCCESS, Some client1, os1)))"

definition iotc_relay_client_stop :: "'u client option \<Rightarrow> os_state \<Rightarrow> 'u client option \<times> os_state" where
  "iotc_relay_client_stop handle os =
     (case handle of
        None \<Rightarrow> (None, os)
      | Some client \<Rightarrow>
          (case disconnect_from_server (client\<lparr>is_running := False\<rparr>) os of
             (client1, os1) \<Rightarrow> (Some client1, os1)))"

definition iotc_relay_client_destroy :: "'u client option \<Rightarrow> os_state \<Rightarrow> 'u client option \<times> os_state" where
  "iotc_relay_client_destroy handle os =
     (case handle of
        None \<Rightarrow> (None, os)
      | Some client \<Rightarrow> (None, snd (iotc_relay_client_stop (Some client) os)))"

definition iotc_relay_client_is_connected :: "'u client option \<Rightarrow> bool" where
  "iotc_relay_client_is_connected handle =
     (case handle of None \<Rightarrow> False | Some client \<Rightarrow> is_connected client)"

text \<open>
  \<^verbatim>\<open>iotc_relay_client_send_telemetry\<close>; \<open>sent\<close> is the value that \<^verbatim>\<open>send\<close> returns if the
  call is reached.
\<close>

definition iotc_relay_client_send_telemetry ::
  "int \<Rightarrow> 'u client option \<Rightarrow> string option \<Rightarrow> os_state
     \<Rightarrow> IotcRelayError \<times> 'u client option \<times> os_state" where
  "iotc_relay_client_send_telemetry sent handle json_data os =
     (case (handle, json_data) of
        (Some client, Some data) \<Rightarrow>
          if \<not> is_connected client then (IOTC_RELAY_ERROR_DISCONNECTED, Some client, os)
          else
            (case create_json_telemetry (client_id client) data of
               None \<Rightarrow> (IOTC_RELAY_ERROR_JSON, Some client, os)
             | Some message \<Rightarrow>
                 (case send_message sent client os message of
                    (result, client1, os1) \<Rightarrow> (result, Some client1, os1)))
      | _ \<Rightarrow> (IOTC_RELAY_ERROR_INVALID_PARAM, handle, os))"

definition iotc_relay_error_string :: "int \<Rightarrow> string" where
  "iotc_relay_error_string error =
     (if error = error_code IOTC_RELAY_SUCCESS then ''Success''
      else if error = error_code IOTC_RELAY_ERROR_SOCKET then ''Socket error''
      else if error = error_code IOTC_RELAY_ERROR_CONNECT then ''Connection error''
      else if error = error_code IOTC_RELAY_ERROR_SEND then ''Send error''
      else if error = error_code IOTC_RELAY_ERROR_RECV then ''Receive error''
      else if error = error_code IOTC_RELAY_ERROR_JSON then ''JSON error''
      else if error = error_code IOTC_RELAY_ERROR_DISCONNECTED then ''Not connected''
      else if error = error_code IOTC_RELAY_ERROR_INVALID_PARAM then ''Invalid parameter''
      else ''Unknown error'')"

subsection \<open>Notions used to state the properties of the receive loop\<close>

text \<open>The bytes of a stream that follow its last newline: the frame not yet terminated.\<close>

definition pending :: "string \<Rightarrow> string" where
  "pending s = rev (takeWhile (\<lambda>x. x \<noteq> newline) (rev s))"

text \<open>
  \<open>fits held chunks\<close>: at every read, the bytes of the unterminated frame held so far
  and the chunk read have room in the accumulation buffer together.
\<close>

fun fits :: "string \<Rightarrow> string list \<Rightarrow> bool" where
  "fits held [] = True"
| "fits held (ch # chs) =
     (length held + length ch \<le> IOTC_RELAY_BUFFER_SIZE * 2 - 1 \<and> fits (pending (held @ ch)) chs)"

text \<open>A callback that records the calls made to it, and a connected client that uses it.\<close>

definition log_command :: "string \<Rightarrow> string \<Rightarrow> (string \<times> string) list \<Rightarrow> (string \<times> string) list" where
  "log_command name params seen = seen @ [(name, params)]"

definition logging_client :: "(string \<times> string) list client" where
  "logging_client =
     \<lparr>socket_path = ''/tmp/iotconnect-relay.sock'', client_id = ''abc'', sockfd = 3,
      is_connected = True, is_running = True, command_callback = Some log_command,
      user_data = [], reconnect_delay = 5\<rparr>"

subsection \<open>The fields of a line in the words of the specification\<close>








subsection \<open>Notions and examples used to state the properties of the connection\<close>

text \<open>
  The address syntax in the words of the specification: the prefix \<^verbatim>\<open>tcp://\<close>, a host that
  is not empty, the last colon as the separator, and a port that is numeric.
\<close>

definition spec_tcp_syntax :: "string \<Rightarrow> bool" where
  "spec_tcp_syntax path =
     (take 6 path = ''tcp://'' \<and> CHR '':'' \<in> set (drop 6 path) \<and>
      (let port = rev (takeWhile (\<lambda>x. x \<noteq> CHR '':'') (rev (drop 6 path)));
           host = take (length (drop 6 path) - length port - 1) (drop 6 path)
       in host \<noteq> [] \<and> port \<noteq> [] \<and> list_all (\<lambda>ch. ch \<in> set ''0123456789'') port))"

text \<open>The results of \<^verbatim>\<open>sendTelemetry\<close> that the specification lists.\<close>

definition spec_send_telemetry_results :: "IotcRelayError set" where
  "spec_send_telemetry_results =
     {IOTC_RELAY_SUCCESS, IOTC_RELAY_ERROR_DISCONNECTED, IOTC_RELAY_ERROR_JSON,
      IOTC_RELAY_ERROR_SEND}"

text \<open>
  A client as \<^verbatim>\<open>iotc_relay_client_create\<close> returns it for the socket path of the example
  application, a system with no descriptor open, and a system in which every call of one
  connection attempt succeeds, \<^verbatim>\<open>socket\<close> returning the descriptor \<open>fd\<close> and \<^verbatim>\<open>send\<close> the
  length of the register envelope of this client.
\<close>

definition created_client :: "(string \<times> string) list client" where
  "created_client =
     \<lparr>socket_path = ''/tmp/iotconnect-relay.sock'', client_id = ''abc'', sockfd = - 1,
      is_connected = False, is_running = False, command_callback = Some log_command,
      user_data = [], reconnect_delay = 5\<rparr>"

definition os_start :: os_state where
  "os_start = \<lparr>open_fds = {}, calls = []\<rparr>"

definition env_ok :: "nat \<Rightarrow> connect_env" where
  "env_ok fd =
     \<lparr>socket_ret = Some fd, inet_pton_ok = True, gethostbyname_ok = True, connect_ok = True,
      send_ret = 38, pthread_create_ok = True\<rparr>"

text \<open>A client that is connected has a socket field that names an open descriptor.\<close>

definition connected_valid :: "'u client \<Rightarrow> os_state \<Rightarrow> bool" where
  "connected_valid client os =
     (if is_connected client then 0 \<le> sockfd client \<and> sockfd client \<in> open_fds os else True)"

section \<open>Properties\<close>

subsection \<open>Envelope encoding\<close>

text \<open>
  Claim C4. For every client identifier and data string, the telemetry envelope is exactly
  the text \<^verbatim>\<open>{"type":"telemetry","client_id":"<id>","data":<data>}\<close> followed by one
  newline, the data inserted verbatim; the register envelope is exactly
  \<^verbatim>\<open>{"type":"register","client_id":"<id>"}\<close> followed by one newline; and the telemetry
  envelope for client \<^verbatim>\<open>abc\<close> and data \<^verbatim>\<open>{"temperature":25.5}\<close> is the line given in the
  specification. The size passed to \<^verbatim>\<open>snprintf\<close> always exceeds the length of the text, so
  nothing is cut.
\<close>

theorem create_json_exact:
  \<open>create_json_telemetry cid data =
     Some (''{"type":"telemetry","client_id":"'' @ cid @ ''","data":'' @ data
             @ ''}'' @ [newline])
   \<and> create_json_register cid =
       Some (''{"type":"register","client_id":"'' @ cid @ ''"}'' @ [newline])
   \<and> create_json_telemetry ''abc'' ''{"temperature":25.5}'' =
       Some (''{"type":"telemetry","client_id":"abc","data":{"temperature":25.5}}''
             @ [newline])\<close>
  by (simp add: create_json_telemetry_def create_json_register_def snprintf_def)

subsection \<open>The receive loop\<close>

text \<open>
  The inner loop on a buffer with no newline, on a buffer that starts with a frame, and on
  two pieces of a buffer one after the other; what it leaves in the buffer; the fields it
  does not touch.
\<close>

declare drain.simps [simp del]

lemma strchr_absent: "ch \<notin> set s \<Longrightarrow> strchr s ch = None"
  by (simp add: strchr_def)

lemma strchr_first: "ch \<notin> set f \<Longrightarrow> strchr (f @ ch # rest) ch = Some (ch # rest)"
  by (auto simp: strchr_def dropWhile_append3)

lemma drain_no_newline: "newline \<notin> set mb \<Longrightarrow> drain c mb = (c, mb)"
  by (simp add: drain.simps [of c mb] strchr_absent)

lemma drain_frame:
  "newline \<notin> set f \<Longrightarrow> drain c (f @ newline # rest) = drain (handle_server_message c f) rest"
  by (simp add: drain.simps [of c "f @ newline # rest"] strchr_first)

lemma split_first_newline:
  "newline \<in> set s \<Longrightarrow> \<exists>f rest. s = f @ newline # rest \<and> newline \<notin> set f"
  by (metis split_list_first)

lemma drain_append:
  "drain c (a @ b) = (case drain c a of (c', p) \<Rightarrow> drain c' (p @ b))"
proof (induction "length a" arbitrary: c a rule: less_induct)
  case less
  show ?case
  proof (cases "newline \<in> set a")
    case False
    then show ?thesis by (simp add: drain_no_newline)
  next
    case True
    then obtain f rest where a: "a = f @ newline # rest" and f: "newline \<notin> set f"
      using split_first_newline by blast
    have "length rest < length a" using a by simp
    from less [OF this] f show ?thesis
      by (simp add: a drain_frame)
  qed
qed

lemma drain_frames:
  "\<forall>f \<in> set fs. newline \<notin> set f \<Longrightarrow> newline \<notin> set p \<Longrightarrow>
   drain c (concat (map (\<lambda>f. f @ [newline]) fs) @ p) = (foldl handle_server_message c fs, p)"
  by (induction fs arbitrary: c) (simp_all add: drain_no_newline drain_frame)

lemma takeWhile_all: "\<forall>x \<in> set xs. P x \<Longrightarrow> takeWhile P xs = xs"
  by (simp only: takeWhile_eq_all_conv)

lemma pending_no_newline:
  assumes "newline \<notin> set s"
  shows "pending s = s"
proof -
  have "\<forall>x \<in> set (rev s). x \<noteq> newline"
    using assms by auto
  then have "takeWhile (\<lambda>x. x \<noteq> newline) (rev s) = rev s"
    by (rule takeWhile_all)
  then show ?thesis
    unfolding pending_def by (simp only: rev_rev_ident)
qed

lemma pending_frame: "pending (f @ newline # rest) = pending rest"
proof (cases "newline \<in> set rest")
  case True
  then have "takeWhile (\<lambda>x. x \<noteq> newline) (rev rest @ newline # rev f)
      = takeWhile (\<lambda>x. x \<noteq> newline) (rev rest)"
    by (intro takeWhile_append1 [of newline]) auto
  then show ?thesis
    by (simp add: pending_def)
next
  case False
  then have "\<forall>x \<in> set (rev rest). x \<noteq> newline"
    by auto
  then have "takeWhile (\<lambda>x. x \<noteq> newline) (rev rest @ newline # rev f) = rev rest"
    by (subst takeWhile_append2) auto
  then show ?thesis
    using False by (simp add: pending_def pending_no_newline [unfolded pending_def])
qed

lemma snd_drain: "snd (drain c s) = pending s"
proof (induction "length s" arbitrary: c s rule: less_induct)
  case less
  show ?case
  proof (cases "newline \<in> set s")
    case False
    then show ?thesis by (simp add: drain_no_newline pending_no_newline)
  next
    case True
    then obtain f rest where a: "s = f @ newline # rest" and f: "newline \<notin> set f"
      using split_first_newline by blast
    have "length rest < length s" using a by simp
    from less [OF this] f show ?thesis
      by (simp add: a drain_frame pending_frame)
  qed
qed


lemma pending_newline_free: "newline \<notin> set (pending s)"
proof
  assume "newline \<in> set (pending s)"
  then have "newline \<in> set (takeWhile (\<lambda>x. x \<noteq> newline) (rev s))"
    by (simp add: pending_def)
  then show False
    by (auto dest: set_takeWhileD)
qed

lemma handle_server_message_flags:
  "is_running (handle_server_message c m) = is_running c"
  "is_connected (handle_server_message c m) = is_connected c"
  "sockfd (handle_server_message c m) = sockfd c"
  "command_callback (handle_server_message c m) = command_callback c"
  by (simp_all add: handle_server_message_def Let_def split: option.splits)

lemma drain_flags:
  "is_running (fst (drain c s)) = is_running c \<and> is_connected (fst (drain c s)) = is_connected c
   \<and> sockfd (fst (drain c s)) = sockfd c"
proof (induction "length s" arbitrary: c s rule: less_induct)
  case less
  show ?case
  proof (cases "newline \<in> set s")
    case False
    then show ?thesis by (simp add: drain_no_newline)
  next
    case True
    then obtain f rest where a: "s = f @ newline # rest" and f: "newline \<notin> set f"
      using split_first_newline by blast
    have "length rest < length s" using a by simp
    from less [OF this, of "handle_server_message c f"] f show ?thesis
      by (simp add: a drain_frame handle_server_message_flags)
  qed
qed

text \<open>The outer loop when every chunk has room in the buffer.\<close>

lemma c_str_no_NUL: "NUL \<notin> set bytes \<Longrightarrow> c_str bytes = bytes"
  unfolding c_str_def by (rule takeWhile_all) auto

lemma strncat_fits:
  "NUL \<notin> set ch \<Longrightarrow> length mb + length ch \<le> IOTC_RELAY_BUFFER_SIZE * 2 - 1 \<Longrightarrow>
   strncat mb ch (IOTC_RELAY_BUFFER_SIZE * 2 - length mb - 1) = mb @ ch"
  by (simp add: strncat_def c_str_no_NUL)

lemma receive_loop_fits:
  assumes "is_running c" and "is_connected c"
    and "\<forall>ch \<in> set chunks. ch \<noteq> [] \<and> NUL \<notin> set ch"
    and "newline \<notin> set mb"
    and "fits mb chunks"
  shows "receive_loop c mb (map Recv_bytes chunks) = drain c (mb @ concat chunks)"
  using assms
proof (induction chunks arbitrary: c mb)
  case Nil
  then show ?case by (simp add: drain_no_newline)
next
  case (Cons ch chs)
  obtain c' mb' where d: "drain c (mb @ ch) = (c', mb')"
    by (cases "drain c (mb @ ch)")
  have mb': "mb' = pending (mb @ ch)"
    using snd_drain [of c "mb @ ch"] d by simp
  have flags: "is_running c'" "is_connected c'"
    using drain_flags [of c "mb @ ch"] d Cons.prems(1,2) by simp_all
  have cat: "strncat mb ch (IOTC_RELAY_BUFFER_SIZE * 2 - length mb - 1) = mb @ ch"
    using Cons.prems(3,5) by (intro strncat_fits) simp_all
  then have cat': "strncat mb ch (IOTC_RELAY_BUFFER_SIZE * 2 - Suc (length mb)) = mb @ ch"
    by simp
  have "receive_loop c mb (map Recv_bytes (ch # chs)) = receive_loop c' mb' (map Recv_bytes chs)"
    using Cons.prems(1,2,3) by (simp add: cat' d)
  also have "\<dots> = drain c' (mb' @ concat chs)"
    using Cons.prems(3,5) flags by (intro Cons.IH) (simp_all add: mb' pending_newline_free)
  also have "\<dots> = drain c ((mb @ ch) @ concat chs)"
    using drain_append [of c "mb @ ch" "concat chs"] by (simp only: d prod.case)
  finally show ?case by simp
qed

text \<open>
  The capacity of the buffer: an append is cut at the capacity, the buffer never exceeds
  it, and a full buffer with no newline absorbs nothing more.
\<close>

lemma strncat_capacity:
  "length mb \<le> IOTC_RELAY_BUFFER_SIZE * 2 - 1 \<Longrightarrow>
   strncat mb buffer (IOTC_RELAY_BUFFER_SIZE * 2 - length mb - 1)
     = take (IOTC_RELAY_BUFFER_SIZE * 2 - 1) (mb @ c_str buffer)"
  by (simp add: strncat_def)

lemma length_pending_le: "length (pending s) \<le> length s"
  unfolding pending_def using length_takeWhile_le [of _ "rev s"] by simp

lemma receive_loop_capacity:
  "length mb \<le> IOTC_RELAY_BUFFER_SIZE * 2 - 1 \<Longrightarrow>
   length (snd (receive_loop c mb rs)) \<le> IOTC_RELAY_BUFFER_SIZE * 2 - 1"
proof (induction rs arbitrary: c mb)
  case Nil
  then show ?case by simp
next
  case (Cons r rs)
  show ?case
  proof (cases r)
    case Recv_closed
    then show ?thesis using Cons.prems by simp
  next
    case (Recv_bytes buffer)
    let ?cat = "strncat mb buffer (IOTC_RELAY_BUFFER_SIZE * 2 - length mb - 1)"
    obtain c' mb' where d: "drain c ?cat = (c', mb')"
      by (cases "drain c ?cat")
    have "mb' = pending ?cat"
      using snd_drain [of c ?cat] d by simp
    then have "length mb' \<le> length ?cat"
      by (simp add: length_pending_le)
    also have "\<dots> \<le> IOTC_RELAY_BUFFER_SIZE * 2 - 1"
      by (simp only: strncat_capacity [OF Cons.prems] length_take min.cobounded2)
    finally have "length (snd (receive_loop c' mb' rs)) \<le> IOTC_RELAY_BUFFER_SIZE * 2 - 1"
      by (rule Cons.IH)
    then show ?thesis
      using Cons.prems d Recv_bytes by simp
  qed
qed

lemma receive_loop_full:
  "length mb = IOTC_RELAY_BUFFER_SIZE * 2 - 1 \<Longrightarrow> newline \<notin> set mb \<Longrightarrow>
   user_data (fst (receive_loop c mb rs)) = user_data c \<and> snd (receive_loop c mb rs) = mb"
proof (induction rs arbitrary: c)
  case Nil
  then show ?case by simp
next
  case (Cons r rs)
  have "strncat mb buffer (IOTC_RELAY_BUFFER_SIZE * 2 - length mb - 1) = mb" for buffer
    using Cons.prems(1) by (simp add: strncat_def)
  then have "drain c (strncat mb buffer (IOTC_RELAY_BUFFER_SIZE * 2 - length mb - 1)) = (c, mb)"
    for buffer
    using Cons.prems(2) by (simp add: drain_no_newline)
  then show ?case
    using Cons.IH [OF Cons.prems] by (simp split: recv_result.split)
qed

lemma receive_loop_overflow:
  assumes "is_running c" and "is_connected c"
    and "newline \<notin> set mb" and "newline \<notin> set frame" and "NUL \<notin> set frame"
    and "IOTC_RELAY_BUFFER_SIZE * 2 - 1 < length mb + length frame"
    and "length mb \<le> IOTC_RELAY_BUFFER_SIZE * 2 - 1"
  shows "user_data (fst (receive_loop c mb (Recv_bytes (frame @ rest) # rs))) = user_data c"
    and "snd (receive_loop c mb (Recv_bytes (frame @ rest) # rs))
         = take (IOTC_RELAY_BUFFER_SIZE * 2 - 1) (mb @ frame)"
proof -
  let ?cap = "IOTC_RELAY_BUFFER_SIZE * 2 - 1"
  let ?mb' = "take ?cap (mb @ frame)"
  have "c_str (frame @ rest) = frame @ c_str rest"
    unfolding c_str_def using assms(5) by (subst takeWhile_append2) auto
  then have cat: "strncat mb (frame @ rest) (IOTC_RELAY_BUFFER_SIZE * 2 - length mb - 1) = ?mb'"
    using assms(6,7) by (simp add: strncat_def)
  have len: "length ?mb' = ?cap"
    using assms(6) by simp
  have nl: "newline \<notin> set ?mb'"
    using assms(3,4) by (auto dest: in_set_takeD)
  have ne: "frame \<noteq> []"
    using assms(6,7) by auto
  have "receive_loop c mb (Recv_bytes (frame @ rest) # rs)
        = (case drain c (strncat mb (frame @ rest) (IOTC_RELAY_BUFFER_SIZE * 2 - length mb - 1)) of
             (c', mb') \<Rightarrow> receive_loop c' mb' rs)"
    using assms(1,2) ne by simp
  also have "\<dots> = receive_loop c ?mb' rs"
    by (simp only: cat drain_no_newline [OF nl] prod.case)
  finally have step:
    "receive_loop c mb (Recv_bytes (frame @ rest) # rs) = receive_loop c ?mb' rs" .
  show "user_data (fst (receive_loop c mb (Recv_bytes (frame @ rest) # rs))) = user_data c"
    and "snd (receive_loop c mb (Recv_bytes (frame @ rest) # rs)) = ?mb'"
    using receive_loop_full [OF len nl, of c rs] by (simp_all only: step)
qed


lemma receive_loop_append_chunk:
  assumes "is_running c" and "is_connected c"
    and "newline \<notin> set mb" and "newline \<notin> set ch" and "NUL \<notin> set ch" and "ch \<noteq> []"
    and "length mb + length ch \<le> IOTC_RELAY_BUFFER_SIZE * 2 - 1"
  shows "receive_loop c mb (Recv_bytes ch # rs) = receive_loop c (mb @ ch) rs"
proof -
  have nl: "newline \<notin> set (mb @ ch)"
    using assms(3,4) by simp
  have "receive_loop c mb (Recv_bytes ch # rs)
        = (case drain c (strncat mb ch (IOTC_RELAY_BUFFER_SIZE * 2 - length mb - 1)) of
             (c', mb') \<Rightarrow> receive_loop c' mb' rs)"
    using assms(1,2,6) by simp
  also have "\<dots> = receive_loop c (mb @ ch) rs"
    by (simp only: strncat_fits [OF assms(5,7)] drain_no_newline [OF nl] prod.case)
  finally show ?thesis .
qed

lemma strstr_replicate:
  "x \<noteq> y \<Longrightarrow> strstr (replicate n x) (y # ys) = None"
  by (induction n) simp_all

text \<open>
  Frames of at most \<open>IOTC_RELAY_BUFFER_SIZE\<close> bytes, read in chunks of at most
  \<open>IOTC_RELAY_BUFFER_SIZE - 1\<close> bytes, always have room.
\<close>

lemma pending_append: "pending (a @ b) = pending (pending a @ b)"
proof (cases "newline \<in> set b")
  case True
  then obtain b1 b2 where b: "b = b1 @ newline # b2"
    by (auto dest: split_list)
  have "pending (a @ b) = pending ((a @ b1) @ newline # b2)"
    by (simp add: b)
  also have "\<dots> = pending b2"
    by (rule pending_frame)
  also have "\<dots> = pending ((pending a @ b1) @ newline # b2)"
    by (rule pending_frame [symmetric])
  finally show ?thesis
    by (simp add: b)
next
  case False
  then have "takeWhile (\<lambda>x. x \<noteq> newline) (rev b @ rev a)
      = rev b @ takeWhile (\<lambda>x. x \<noteq> newline) (rev a)"
    by (subst takeWhile_append2) auto
  then have "pending (a @ b) = pending a @ b"
    by (simp add: pending_def)
  moreover have "pending (pending a @ b) = pending a @ b"
    using False by (intro pending_no_newline) (simp add: pending_newline_free)
  ultimately show ?thesis by simp
qed

lemma pending_prefix_bound:
  assumes "\<forall>f \<in> set fs. newline \<notin> set f \<and> length f \<le> L"
    and "newline \<notin> set p" and "length p \<le> L"
    and "prefix s (concat (map (\<lambda>f. f @ [newline]) fs) @ p)"
  shows "length (pending s) \<le> L"
  using assms
proof (induction fs arbitrary: s)
  case Nil
  then have "prefix s p" by simp
  then have "newline \<notin> set s" and "length s \<le> length p"
    using Nil.prems(2) by (auto dest: set_mono_prefix prefix_length_le)
  then show ?case
    using Nil.prems(3) by (simp add: pending_no_newline)
next
  case (Cons f fs)
  let ?rest = "concat (map (\<lambda>f. f @ [newline]) fs) @ p"
  have "prefix s (f @ newline # ?rest)"
    using Cons.prems(4) by simp
  then consider "prefix s f" | t where "s = f @ t" "prefix t (newline # ?rest)"
    by (auto simp: prefix_append)
  then show ?case
  proof cases
    case 1
    then have "newline \<notin> set s" and "length s \<le> length f"
      using Cons.prems(1) by (auto dest: set_mono_prefix prefix_length_le)
    then show ?thesis
      using Cons.prems(1) by (simp add: pending_no_newline)
  next
    case 2
    show ?thesis
    proof (cases t)
      case Nil
      then have "pending s = f"
        using 2 Cons.prems(1) by (simp add: pending_no_newline)
      then show ?thesis
        using Cons.prems(1) by simp
    next
      case (Cons x t')
      then have t: "t = newline # t'" and "prefix t' ?rest"
        using 2(2) by simp_all
      then have "length (pending t') \<le> L"
        using Cons.prems(1,2,3) by (intro Cons.IH) simp_all
      then show ?thesis
        by (simp add: 2(1) t pending_frame)
    qed
  qed
qed

lemma fits_pending_prefix:
  assumes "\<forall>ch \<in> set chunks. length ch \<le> IOTC_RELAY_BUFFER_SIZE - 1"
    and "\<forall>f \<in> set fs. newline \<notin> set f \<and> length f \<le> IOTC_RELAY_BUFFER_SIZE"
    and "newline \<notin> set p" and "length p \<le> IOTC_RELAY_BUFFER_SIZE"
    and "pre @ concat chunks = concat (map (\<lambda>f. f @ [newline]) fs) @ p"
  shows "fits (pending pre) chunks"
  using assms(1,5)
proof (induction chunks arbitrary: pre)
  case Nil
  then show ?case by simp
next
  case (Cons ch chs)
  have "prefix pre (concat (map (\<lambda>f. f @ [newline]) fs) @ p)"
    using Cons.prems(2) by (metis prefixI)
  then have "length (pending pre) \<le> IOTC_RELAY_BUFFER_SIZE"
    using assms(2,3,4) by (intro pending_prefix_bound [of fs]) simp_all
  moreover have "length ch \<le> IOTC_RELAY_BUFFER_SIZE - 1"
    using Cons.prems(1) by simp
  ultimately have "length (pending pre) + length ch \<le> IOTC_RELAY_BUFFER_SIZE * 2 - 1"
    by (simp add: IOTC_RELAY_BUFFER_SIZE_def)
  moreover have "fits (pending (pre @ ch)) chs"
    using Cons.prems by (intro Cons.IH) simp_all
  ultimately show ?case
    by (simp add: pending_append [of pre ch, symmetric])
qed

lemma fits_bounded_frames:
  assumes "\<forall>ch \<in> set chunks. length ch \<le> IOTC_RELAY_BUFFER_SIZE - 1"
    and "\<forall>f \<in> set fs. newline \<notin> set f \<and> length f \<le> IOTC_RELAY_BUFFER_SIZE"
    and "newline \<notin> set p" and "length p \<le> IOTC_RELAY_BUFFER_SIZE"
    and "concat chunks = concat (map (\<lambda>f. f @ [newline]) fs) @ p"
  shows "fits [] chunks"
  using fits_pending_prefix [of chunks fs p "[]"] assms by (simp add: pending_def)

text \<open>
  Claim C1, as amended. Let the chunks read hold no NUL byte and let no read overflow the
  accumulation buffer (\<open>fits\<close>; by \<open>fits_bounded_frames\<close> this is so whenever no chunk
  exceeds \<open>IOTC_RELAY_BUFFER_SIZE - 1\<close> bytes and no frame exceeds
  \<open>IOTC_RELAY_BUFFER_SIZE\<close> bytes). Then, however the stream of newline-terminated frames
  \<open>fs\<close> followed by the unterminated bytes \<open>p\<close> is cut into chunks, the loop hands every
  frame to \<open>handle_server_message\<close> exactly once, in the order of receipt, each as the
  bytes before its newline, and keeps exactly \<open>p\<close> in the buffer: a frame split over
  several reads is handled once, when its newline arrives.
\<close>

theorem receive_frames_in_order:
  assumes "is_running c" and "is_connected c"
    and "\<forall>ch \<in> set chunks. ch \<noteq> [] \<and> NUL \<notin> set ch"
    and "fits [] chunks"
    and "\<forall>f \<in> set fs. newline \<notin> set f" and "newline \<notin> set p"
    and "concat chunks = concat (map (\<lambda>f. f @ [newline]) fs) @ p"
  shows "receive_thread_func c (map Recv_bytes chunks) = (foldl handle_server_message c fs, p)"
proof -
  have "receive_thread_func c (map Recv_bytes chunks) = drain c ([] @ concat chunks)"
    unfolding receive_thread_func_def using assms(1-4) by (intro receive_loop_fits) simp_all
  also have "\<dots> = (foldl handle_server_message c fs, p)"
    using assms(5,6) by (simp add: assms(7) drain_frames)
  finally show ?thesis .
qed

text \<open>
  The command frame of the specification's test, cut in the middle of a key, followed by a
  telemetry frame: one call of the callback, with \<^verbatim>\<open>Command_A\<close> and \<^verbatim>\<open>42\<close>.
\<close>

theorem receive_frames_in_order_witness:
  \<open>fits [] [''{"type":"command","command_na'',
              ''me":"Command_A","parameters":"42"}'' @ [newline] @
              ''{"type":"telemetry","client_id":"x","data":{}}'' @ [newline]]
   \<and> user_data (fst (receive_thread_func logging_client
        [Recv_bytes ''{"type":"command","command_na'',
         Recv_bytes (''me":"Command_A","parameters":"42"}'' @ [newline] @
              ''{"type":"telemetry","client_id":"x","data":{}}'' @ [newline])]))
     = [(''Command_A'', ''42'')]\<close>
proof -
  let ?c1 = \<open>''{"type":"command","command_na''\<close>
  let ?c2 = \<open>''me":"Command_A","parameters":"42"}'' @ [newline] @
              ''{"type":"telemetry","client_id":"x","data":{}}'' @ [newline]\<close>
  let ?f1 = \<open>''{"type":"command","command_name":"Command_A","parameters":"42"}''\<close>
  let ?f2 = \<open>''{"type":"telemetry","client_id":"x","data":{}}''\<close>
  have fits: "fits [] [?c1, ?c2]"
    by (simp add: pending_def IOTC_RELAY_BUFFER_SIZE_def)
  have "receive_thread_func logging_client (map Recv_bytes [?c1, ?c2])
        = (foldl handle_server_message logging_client [?f1, ?f2], [])"
    using fits by (intro receive_frames_in_order) (simp_all add: logging_client_def)
  moreover have "user_data (foldl handle_server_message logging_client [?f1, ?f2])
        = [(''Command_A'', ''42'')]"
    by (simp add: handle_server_message_def find_json_value_def snprintf_def strchr_def
        strncpy_def is_blank_def logging_client_def log_command_def)
  ultimately show ?thesis
    using fits by simp
qed

text \<open>
  Claim C1 as stated fails on the code. A frame of 8192 bytes followed by a command frame
  of 38 bytes, read in chunks of at most 4095 bytes: handling the two frames in order calls
  the callback once, but the loop never calls it, since the append is cut at the capacity of
  the buffer, the newline is among the bytes dropped and every later chunk is dropped
  whole. A chunk with a NUL byte before a complete command frame: the append stops at the
  NUL and the command frame is lost.
\<close>

theorem receive_overflow_counterexample:
  \<open>replicate 4095 CHR ''a'' @ replicate 4095 CHR ''a'' @ (''aa'' @ [newline])
      @ (''{"type":"command","command_name":"x"}'' @ [newline])
     = replicate 8192 CHR ''a'' @ [newline]
         @ ''{"type":"command","command_name":"x"}'' @ [newline]
   \<and> user_data (foldl handle_server_message logging_client
         [replicate 8192 CHR ''a'', ''{"type":"command","command_name":"x"}''])
       = [(''x'', [])]
   \<and> user_data (fst (receive_thread_func logging_client
         [Recv_bytes (replicate 4095 CHR ''a''), Recv_bytes (replicate 4095 CHR ''a''),
          Recv_bytes (''aa'' @ [newline]),
          Recv_bytes (''{"type":"command","command_name":"x"}'' @ [newline])]))
       = []
   \<and> user_data (foldl handle_server_message logging_client
         [[NUL], ''{"type":"command","command_name":"x"}''])
       = [(''x'', [])]
   \<and> user_data (fst (receive_thread_func logging_client
         [Recv_bytes ([NUL, newline] @ ''{"type":"command","command_name":"x"}''
            @ [newline])]))
       = []\<close>
proof -
  let ?a = "replicate 4095 CHR ''a''"
  let ?cmd = \<open>''{"type":"command","command_name":"x"}''\<close>
  have stream: "?a @ ?a @ (''aa'' @ [newline]) @ (?cmd @ [newline])
      = replicate 8192 CHR ''a'' @ [newline] @ ?cmd @ [newline]"
  proof -
    have "replicate 8192 CHR ''a'' = replicate (4095 + (4095 + 2)) CHR ''a''"
      by simp
    also have "\<dots> = ?a @ ?a @ ''aa''"
      by (simp only: replicate_add) (simp add: numeral_2_eq_2)
    finally show ?thesis by simp
  qed
  have long: "handle_server_message logging_client (replicate 8192 CHR ''a'') = logging_client"
    by (simp add: handle_server_message_def find_json_value_def snprintf_def strstr_replicate)
  have cmd: "user_data (handle_server_message logging_client ?cmd) = [(''x'', [])]"
    by (simp add: handle_server_message_def find_json_value_def snprintf_def strchr_def
        strncpy_def is_blank_def logging_client_def log_command_def)
  have flags: "is_running logging_client" "is_connected logging_client"
    by (simp_all add: logging_client_def)
  have "receive_thread_func logging_client
          [Recv_bytes ?a, Recv_bytes ?a, Recv_bytes (''aa'' @ [newline]),
           Recv_bytes (?cmd @ [newline])]
        = receive_loop logging_client ([] @ ?a)
            [Recv_bytes ?a, Recv_bytes (''aa'' @ [newline]), Recv_bytes (?cmd @ [newline])]"
    unfolding receive_thread_func_def using flags
    by (intro receive_loop_append_chunk) (simp_all add: IOTC_RELAY_BUFFER_SIZE_def)
  also have "\<dots> = receive_loop logging_client (([] @ ?a) @ ?a)
            [Recv_bytes (''aa'' @ [newline]), Recv_bytes (?cmd @ [newline])]"
    using flags by (intro receive_loop_append_chunk) (simp_all add: IOTC_RELAY_BUFFER_SIZE_def)
  finally have "user_data (fst (receive_thread_func logging_client
          [Recv_bytes ?a, Recv_bytes ?a, Recv_bytes (''aa'' @ [newline]),
           Recv_bytes (?cmd @ [newline])])) = user_data logging_client"
    using flags
    by (simp only:) (intro receive_loop_overflow(1), simp_all add: IOTC_RELAY_BUFFER_SIZE_def)
  then have overflow: "user_data (fst (receive_thread_func logging_client
          [Recv_bytes ?a, Recv_bytes ?a, Recv_bytes (''aa'' @ [newline]),
           Recv_bytes (?cmd @ [newline])])) = []"
    by (simp add: logging_client_def)
  have short: "handle_server_message logging_client [NUL] = logging_client"
    by (simp add: handle_server_message_def find_json_value_def snprintf_def)
  have nul: "user_data (fst (receive_thread_func logging_client
         [Recv_bytes ([NUL, newline] @ ?cmd @ [newline])])) = []"
    by (simp add: receive_thread_func_def strncat_def c_str_def drain_no_newline flags)
      (simp add: logging_client_def)
  show ?thesis
    using stream overflow nul by (simp only: foldl.simps long short cmd)
qed

text \<open>
  A chunk whose append reaches the capacity inside a frame: the frames completed before the
  cut are handled, the bytes of the cut frame before the cut stay in the buffer, the rest
  of the chunk is dropped, and the loop goes on from there.
\<close>

lemma receive_loop_cut:
  assumes "is_running c" and "is_connected c"
    and "NUL \<notin> set pre" and "NUL \<notin> set frame" and "newline \<notin> set frame"
    and "length mb + length pre \<le> IOTC_RELAY_BUFFER_SIZE * 2 - 1"
    and "IOTC_RELAY_BUFFER_SIZE * 2 - 1 < length mb + length pre + length frame"
  shows "receive_loop c mb (Recv_bytes (pre @ frame @ rest) # rs)
         = receive_loop (fst (drain c (mb @ pre)))
             (pending (mb @ pre)
                @ take (IOTC_RELAY_BUFFER_SIZE * 2 - 1 - length mb - length pre) frame) rs"
proof -
  let ?k = "IOTC_RELAY_BUFFER_SIZE * 2 - 1 - length mb - length pre"
  obtain c' p where d: "drain c (mb @ pre) = (c', p)"
    by (cases "drain c (mb @ pre)")
  have p: "p = pending (mb @ pre)"
    using snd_drain [of c "mb @ pre"] d by simp
  have flags: "is_running c'" "is_connected c'"
    using drain_flags [of c "mb @ pre"] d assms(1,2) by simp_all
  have "c_str (pre @ frame @ rest) = (pre @ frame) @ c_str rest"
    unfolding c_str_def using assms(3,4) by (subst append_assoc [symmetric], subst takeWhile_append2) auto
  then have cat: "strncat mb (pre @ frame @ rest) (IOTC_RELAY_BUFFER_SIZE * 2 - length mb - 1)
      = (mb @ pre) @ take ?k frame"
    using assms(6,7) by (simp add: strncat_def)
  have nl: "newline \<notin> set (p @ take ?k frame)"
    using assms(5) by (auto simp: p pending_newline_free dest: in_set_takeD)
  have ne: "frame \<noteq> []"
    using assms(6,7) by auto
  have "receive_loop c mb (Recv_bytes (pre @ frame @ rest) # rs)
        = (case drain c (strncat mb (pre @ frame @ rest)
                           (IOTC_RELAY_BUFFER_SIZE * 2 - length mb - 1)) of
             (c', mb') \<Rightarrow> receive_loop c' mb' rs)"
    using assms(1,2) ne by simp
  also have "drain c (strncat mb (pre @ frame @ rest) (IOTC_RELAY_BUFFER_SIZE * 2 - length mb - 1))
        = drain c' (p @ take ?k frame)"
    using drain_append [of c "mb @ pre" "take ?k frame"] by (simp only: cat d prod.case)
  also have "\<dots> = (c', p @ take ?k frame)"
    using nl by (rule drain_no_newline)
  finally show ?thesis
    by (simp only: prod.case d fst_conv p)
qed

text \<open>
  Claim C10, as amended. The accumulation buffer never holds more than \<open>2 * 4096 - 1\<close>
  bytes, and an append keeps the first \<open>2 * 4096 - 1\<close> bytes of the buffer followed by the
  chunk and drops the rest. For every chunk in which a frame is longer than the room left
  when it starts (\<open>pre\<close> is what the chunk holds before the frame), the frames completed
  before it are handled and the frame is truncated: of the frame, the buffer keeps only the
  bytes before the cut, and the loop goes on with these, so that what is read next is
  joined to them. When the buffer holds no newline and the chunk starts with the frame, the
  buffer is then full, and no call of the callback is made then or for any later input
  \<open>rs\<close>: that frame is never dispatched.
\<close>

theorem receive_buffer_capacity:
  "length (snd (receive_thread_func c rs)) \<le> 2 * 4096 - 1
   \<and> (length mb \<le> 2 * 4096 - 1 \<longrightarrow>
        strncat mb buffer (IOTC_RELAY_BUFFER_SIZE * 2 - length mb - 1)
          = take (2 * 4096 - 1) (mb @ c_str buffer))
   \<and> (is_running c \<and> is_connected c \<and> NUL \<notin> set pre \<and> NUL \<notin> set frame
        \<and> newline \<notin> set frame \<and> length mb + length pre \<le> 2 * 4096 - 1
        \<and> 2 * 4096 - 1 - length mb - length pre < length frame \<longrightarrow>
        receive_loop c mb (Recv_bytes (pre @ frame @ rest) # rs)
          = receive_loop (fst (drain c (mb @ pre)))
              (pending (mb @ pre) @ take (2 * 4096 - 1 - length mb - length pre) frame) rs
        \<and> length (take (2 * 4096 - 1 - length mb - length pre) frame) < length frame)
   \<and> (is_running c \<and> is_connected c \<and> length mb \<le> 2 * 4096 - 1 \<and> newline \<notin> set mb
        \<and> newline \<notin> set frame \<and> NUL \<notin> set frame \<and> 2 * 4096 - 1 - length mb < length frame \<longrightarrow>
        snd (receive_loop c mb (Recv_bytes (frame @ rest) # rs)) = take (2 * 4096 - 1) (mb @ frame)
        \<and> take (2 * 4096 - 1) (mb @ frame) \<noteq> mb @ frame
        \<and> user_data (fst (receive_loop c mb (Recv_bytes (frame @ rest) # rs))) = user_data c)"
proof -
  have cap: "IOTC_RELAY_BUFFER_SIZE * 2 - 1 = 2 * 4096 - 1"
    by (simp add: IOTC_RELAY_BUFFER_SIZE_def)
  have "length (snd (receive_loop c [] rs)) \<le> IOTC_RELAY_BUFFER_SIZE * 2 - 1"
    by (rule receive_loop_capacity) simp
  then have first: "length (snd (receive_thread_func c rs)) \<le> 2 * 4096 - 1"
    by (simp only: receive_thread_func_def cap)
  have second: "strncat mb buffer (IOTC_RELAY_BUFFER_SIZE * 2 - length mb - 1)
      = take (2 * 4096 - 1) (mb @ c_str buffer)" if "length mb \<le> 2 * 4096 - 1"
    using strncat_capacity [of mb buffer] that by (simp only: cap)
  have third: "receive_loop c mb (Recv_bytes (pre @ frame @ rest) # rs)
          = receive_loop (fst (drain c (mb @ pre)))
              (pending (mb @ pre) @ take (2 * 4096 - 1 - length mb - length pre) frame) rs
        \<and> length (take (2 * 4096 - 1 - length mb - length pre) frame) < length frame"
    if h: "is_running c" "is_connected c" "NUL \<notin> set pre" "NUL \<notin> set frame"
      "newline \<notin> set frame" "length mb + length pre \<le> 2 * 4096 - 1"
      "2 * 4096 - 1 - length mb - length pre < length frame"
  proof -
    have le: "length mb + length pre \<le> IOTC_RELAY_BUFFER_SIZE * 2 - 1"
      using h(6) by (simp add: IOTC_RELAY_BUFFER_SIZE_def)
    have over: "IOTC_RELAY_BUFFER_SIZE * 2 - 1 < length mb + length pre + length frame"
      using h(6,7) by (simp add: IOTC_RELAY_BUFFER_SIZE_def)
    have run: "receive_loop c mb (Recv_bytes (pre @ frame @ rest) # rs)
          = receive_loop (fst (drain c (mb @ pre)))
              (pending (mb @ pre) @ take (2 * 4096 - 1 - length mb - length pre) frame) rs"
      using receive_loop_cut [OF h(1,2,3,4,5) le over, of rest rs] by (simp only: cap)
    have "length (take (2 * 4096 - 1 - length mb - length pre) frame) < length frame"
      using h(7) by simp
    with run show ?thesis
      by (intro conjI)
  qed
  have fourth: "snd (receive_loop c mb (Recv_bytes (frame @ rest) # rs)) = take (2 * 4096 - 1) (mb @ frame)
        \<and> take (2 * 4096 - 1) (mb @ frame) \<noteq> mb @ frame
        \<and> user_data (fst (receive_loop c mb (Recv_bytes (frame @ rest) # rs))) = user_data c"
    if h: "is_running c" "is_connected c" "length mb \<le> 2 * 4096 - 1" "newline \<notin> set mb"
      "newline \<notin> set frame" "NUL \<notin> set frame" "2 * 4096 - 1 - length mb < length frame"
  proof -
    have over: "IOTC_RELAY_BUFFER_SIZE * 2 - 1 < length mb + length frame"
      using h(3,7) by (simp add: IOTC_RELAY_BUFFER_SIZE_def)
    have le: "length mb \<le> IOTC_RELAY_BUFFER_SIZE * 2 - 1"
      using h(3) by (simp add: IOTC_RELAY_BUFFER_SIZE_def)
    have "length (take (2 * 4096 - 1) (mb @ frame)) \<noteq> length (mb @ frame)"
      using h(3,7) by simp
    then have ne: "take (2 * 4096 - 1) (mb @ frame) \<noteq> mb @ frame"
      by metis
    have quiet: "user_data (fst (receive_loop c mb (Recv_bytes (frame @ rest) # rs))) = user_data c"
      by (rule receive_loop_overflow(1) [OF h(1,2,4,5,6) over le])
    have kept: "snd (receive_loop c mb (Recv_bytes (frame @ rest) # rs))
        = take (2 * 4096 - 1) (mb @ frame)"
      using receive_loop_overflow(2) [OF h(1,2,4,5,6) over le, of rest rs] by (simp only: cap)
    show ?thesis
      using kept ne quiet by (intro conjI)
  qed
  show ?thesis
    using first second third fourth by blast
qed

text \<open>
  A buffer that holds 8190 bytes with no newline and a command frame of 38 bytes: one byte
  of the frame is kept, and the callback is called neither for this frame nor for the same
  frame sent again. A buffer that holds 8160 such bytes and a chunk with a newline and then
  a command frame of 42 bytes: the first 30 bytes of the frame stay in the buffer.
\<close>

theorem receive_buffer_capacity_witness:
  \<open>snd (receive_loop logging_client (replicate 8190 CHR ''a'')
          [Recv_bytes (''{"type":"command","command_name":"x"}'' @ [newline]),
           Recv_bytes (''{"type":"command","command_name":"x"}'' @ [newline])])
     = replicate 8190 CHR ''a'' @ ''{''
   \<and> user_data (fst (receive_loop logging_client (replicate 8190 CHR ''a'')
          [Recv_bytes (''{"type":"command","command_name":"x"}'' @ [newline]),
           Recv_bytes (''{"type":"command","command_name":"x"}'' @ [newline])]))
     = []
   \<and> receive_loop logging_client (replicate 8160 CHR ''a'')
          [Recv_bytes ([newline] @ ''{"type":"command","command_name":"reboot"}'' @ [newline])]
     = (logging_client, ''{"type":"command","command_nam'')\<close>
proof -
  let ?mb = "replicate 8190 CHR ''a''"
  let ?frame = \<open>''{"type":"command","command_name":"x"}''\<close>
  have hyp: "is_running logging_client \<and> is_connected logging_client
      \<and> length ?mb \<le> 2 * 4096 - 1 \<and> newline \<notin> set ?mb \<and> newline \<notin> set ?frame
      \<and> NUL \<notin> set ?frame \<and> 2 * 4096 - 1 - length ?mb < length ?frame"
    by (simp add: logging_client_def)
  note r = receive_buffer_capacity
    [where c = logging_client and mb = ?mb and frame = ?frame and rest = "[newline]"
       and rs = "[Recv_bytes (?frame @ [newline])]",
     THEN conjunct2, THEN conjunct2, THEN conjunct2, THEN mp, OF hyp]
  have t: "take (2 * 4096 - 1) (?mb @ ?frame) = ?mb @ ''{''"
    by simp
  have u: "user_data logging_client = []"
    by (simp add: logging_client_def)
  from r have stuck1: "snd (receive_loop logging_client ?mb
        [Recv_bytes (?frame @ [newline]), Recv_bytes (?frame @ [newline])]) = ?mb @ ''{''"
    by (simp only: t)
  from r have stuck2: "user_data (fst (receive_loop logging_client ?mb
        [Recv_bytes (?frame @ [newline]), Recv_bytes (?frame @ [newline])])) = []"
    by (simp only: u)
  let ?held = "replicate 8160 CHR ''a''"
  let ?cmd = \<open>''{"type":"command","command_name":"reboot"}''\<close>
  have hyp': "is_running logging_client \<and> is_connected logging_client \<and> NUL \<notin> set [newline]
      \<and> NUL \<notin> set ?cmd \<and> newline \<notin> set ?cmd \<and> length ?held + length [newline] \<le> 2 * 4096 - 1
      \<and> 2 * 4096 - 1 - length ?held - length [newline] < length ?cmd"
    by (simp add: logging_client_def)
  note q = receive_buffer_capacity
    [where c = logging_client and mb = ?held and pre = "[newline]" and frame = ?cmd
       and rest = "[newline]" and rs = "[]",
     THEN conjunct2, THEN conjunct2, THEN conjunct1, THEN mp, OF hyp', THEN conjunct1]
  have idle: "handle_server_message logging_client ?held = logging_client"
    by (simp add: handle_server_message_def find_json_value_def snprintf_def strstr_replicate)
  have "drain logging_client (?held @ newline # []) = drain (handle_server_message logging_client ?held) []"
    by (rule drain_frame) simp
  then have d: "drain logging_client (?held @ [newline]) = (logging_client, [])"
    by (simp add: idle drain_no_newline)
  have pend: "pending (?held @ [newline]) = []"
    using pending_frame [of ?held "[]"] by (simp add: pending_def)
  have k: \<open>take (2 * 4096 - 1 - length ?held - length [newline]) ?cmd
      = ''{"type":"command","command_nam''\<close>
    by simp
  have cut: \<open>receive_loop logging_client ?held [Recv_bytes ([newline] @ ?cmd @ [newline])]
      = (logging_client, ''{"type":"command","command_nam'')\<close>
    using q by (simp only: d fst_conv pend k append_Nil receive_loop.simps)
  show ?thesis
    using stuck1 stuck2 cut by (intro conjI)
qed

text \<open>
  Claim C10 as stated fails on the code: a frame that is longer than the room left can be
  dispatched with its full content after all. 8160 bytes and a newline are read first; of
  the command frame of 42 bytes that follows in the same chunk 30 bytes have room and stay
  in the buffer. When the next bytes read are the 12 bytes that were cut, and a newline,
  the loop joins them to the 30 bytes kept and dispatches the command.
\<close>

theorem receive_cut_frame_counterexample:
  \<open>2 * 4096 - 1 - (4095 + 4065 + 1) < length ''{"type":"command","command_name":"reboot"}''
   \<and> user_data (fst (receive_thread_func logging_client
         [Recv_bytes (replicate 4095 CHR ''a''), Recv_bytes (replicate 4065 CHR ''a''),
          Recv_bytes ([newline] @ ''{"type":"command","command_name":"reboot"}'' @ [newline]),
          Recv_bytes (''e":"reboot"}'' @ [newline])]))
       = [(''reboot'', [])]\<close>
proof -
  let ?a1 = "replicate 4095 CHR ''a''"
  let ?a2 = "replicate 4065 CHR ''a''"
  let ?held = "replicate 8160 CHR ''a''"
  let ?cmd = \<open>''{"type":"command","command_name":"reboot"}''\<close>
  let ?tail = \<open>''e":"reboot"}''\<close>
  let ?kept = \<open>''{"type":"command","command_nam''\<close>
  have flags: "is_running logging_client" "is_connected logging_client"
    by (simp_all add: logging_client_def)
  have held: "([] @ ?a1) @ ?a2 = ?held"
    by (simp add: replicate_add [symmetric])
  have "receive_thread_func logging_client
          [Recv_bytes ?a1, Recv_bytes ?a2, Recv_bytes ([newline] @ ?cmd @ [newline]),
           Recv_bytes (?tail @ [newline])]
        = receive_loop logging_client ([] @ ?a1)
            [Recv_bytes ?a2, Recv_bytes ([newline] @ ?cmd @ [newline]),
             Recv_bytes (?tail @ [newline])]"
    unfolding receive_thread_func_def using flags
    by (intro receive_loop_append_chunk) (simp_all add: IOTC_RELAY_BUFFER_SIZE_def)
  also have "\<dots> = receive_loop logging_client (([] @ ?a1) @ ?a2)
            [Recv_bytes ([newline] @ ?cmd @ [newline]), Recv_bytes (?tail @ [newline])]"
    using flags by (intro receive_loop_append_chunk) (simp_all add: IOTC_RELAY_BUFFER_SIZE_def)
  finally have start: "receive_thread_func logging_client
          [Recv_bytes ?a1, Recv_bytes ?a2, Recv_bytes ([newline] @ ?cmd @ [newline]),
           Recv_bytes (?tail @ [newline])]
        = receive_loop logging_client ?held
            [Recv_bytes ([newline] @ ?cmd @ [newline]), Recv_bytes (?tail @ [newline])]"
    by (simp only: held)
  have idle: "handle_server_message logging_client ?held = logging_client"
    by (simp add: handle_server_message_def find_json_value_def snprintf_def strstr_replicate)
  have "drain logging_client (?held @ newline # []) = drain (handle_server_message logging_client ?held) []"
    by (rule drain_frame) simp
  then have d: "drain logging_client (?held @ [newline]) = (logging_client, [])"
    by (simp add: idle drain_no_newline)
  have pend: "pending (?held @ [newline]) = []"
    using pending_frame [of ?held "[]"] by (simp add: pending_def)
  have k: "take (IOTC_RELAY_BUFFER_SIZE * 2 - 1 - length ?held - length [newline]) ?cmd = ?kept"
    by (simp add: IOTC_RELAY_BUFFER_SIZE_def)
  have "receive_loop logging_client ?held
            [Recv_bytes ([newline] @ ?cmd @ [newline]), Recv_bytes (?tail @ [newline])]
        = receive_loop (fst (drain logging_client (?held @ [newline])))
            (pending (?held @ [newline])
               @ take (IOTC_RELAY_BUFFER_SIZE * 2 - 1 - length ?held - length [newline]) ?cmd)
            [Recv_bytes (?tail @ [newline])]"
    using flags by (intro receive_loop_cut) (simp_all add: IOTC_RELAY_BUFFER_SIZE_def)
  then have cut: "receive_loop logging_client ?held
            [Recv_bytes ([newline] @ ?cmd @ [newline]), Recv_bytes (?tail @ [newline])]
        = receive_loop logging_client ?kept [Recv_bytes (?tail @ [newline])]"
    by (simp only: d fst_conv pend k append_Nil)
  have "receive_loop logging_client ?kept (map Recv_bytes [?tail @ [newline]])
        = drain logging_client (?kept @ concat [?tail @ [newline]])"
    using flags by (intro receive_loop_fits) (simp_all add: IOTC_RELAY_BUFFER_SIZE_def)
  also have "\<dots> = drain logging_client (?cmd @ newline # [])"
    by simp
  also have "\<dots> = drain (handle_server_message logging_client ?cmd) []"
    by (rule drain_frame) simp
  also have "\<dots> = (handle_server_message logging_client ?cmd, [])"
    by (rule drain_no_newline) simp
  finally have joined: "receive_loop logging_client ?kept [Recv_bytes (?tail @ [newline])]
        = (handle_server_message logging_client ?cmd, [])"
    by simp
  have cmd: "user_data (handle_server_message logging_client ?cmd) = [(''reboot'', [])]"
    by (simp add: handle_server_message_def find_json_value_def snprintf_def strchr_def
        strncpy_def is_blank_def logging_client_def log_command_def)
  have "user_data (fst (receive_thread_func logging_client
          [Recv_bytes ?a1, Recv_bytes ?a2, Recv_bytes ([newline] @ ?cmd @ [newline]),
           Recv_bytes (?tail @ [newline])])) = [(''reboot'', [])]"
    by (simp only: start cut joined fst_conv cmd)
  then show ?thesis
    by simp
qed

subsection \<open>Envelope decoding\<close>

lemma take_length_dropWhile: "take (length xs - length (dropWhile P xs)) xs = takeWhile P xs"
proof -
  have "length (takeWhile P xs) + length (dropWhile P xs) = length xs"
    by (metis length_append takeWhile_dropWhile_id)
  then have "length xs - length (dropWhile P xs) = length (takeWhile P xs)"
    by simp
  then show ?thesis
    by (metis append_eq_conv_conj takeWhile_dropWhile_id)
qed

lemma strstr_skip:
  "y \<notin> set xs \<Longrightarrow> strstr (xs @ rest) (y # ys) = strstr rest (y # ys)"
  by (induction xs) auto

lemma no_prefix_across_quote:
  "q \<notin> set w \<Longrightarrow> q \<notin> set n \<Longrightarrow> x \<noteq> y \<Longrightarrow> \<not> prefix (w @ q # y # ys) (n @ q # x # t)"
proof (induction w arbitrary: n)
  case Nil
  then show ?case by (cases n) auto
next
  case (Cons b w)
  then show ?case by (cases n) auto
qed

lemma find_json_value_quoted:
  assumes "strstr json (snprintf 128 ([dquote] @ key @ [dquote] @ '':'')) = Some found"
    and "dropWhile is_blank (drop (length (snprintf 128 ([dquote] @ key @ [dquote] @ '':''))) found)
         = dquote # v @ dquote # rest"
    and "dquote \<notin> set v"
  shows "find_json_value json key = Some v"
proof -
  define r where "r = v @ dquote # rest"
  have tw: "takeWhile (\<lambda>x. x \<noteq> dquote) r = v"
    unfolding r_def using assms(3) by (subst takeWhile_append2) auto
  have "dquote \<in> set r"
    by (simp add: r_def)
  then have "strchr r dquote = Some (dropWhile (\<lambda>x. x \<noteq> dquote) r)"
    by (simp add: strchr_def)
  moreover have "strncpy r (length r - length (dropWhile (\<lambda>x. x \<noteq> dquote) r)) = v"
    by (simp only: strncpy_def take_length_dropWhile tw)
  ultimately show ?thesis
    using assms(1,2) unfolding r_def [symmetric]
    by (simp add: find_json_value_def Let_def r_def [symmetric])
qed











text \<open>
  The key scan on the inbound command envelope of the wire protocol, for every command name
  and parameter string with no quote in them.
\<close>

lemma handle_server_message_command_frame:
  assumes "command_callback c = Some callback"
    and "dquote \<notin> set name" and "dquote \<notin> set params"
  shows \<open>handle_server_message c
           (''{"type":"command","command_name":"'' @ name @ ''","parameters":"'' @ params @ ''"}'')
         = c\<lparr>user_data := callback name params (user_data c)\<rparr>\<close>
proof -
  let ?line = \<open>''{"type":"command","command_name":"'' @ name @ ''","parameters":"'' @ params @ ''"}''\<close>
  have ty: "find_json_value ?line ''type'' = Some ''command''"
    by (rule find_json_value_quoted
          [where found = \<open>''"type":"command","command_name":"'' @ name @ ''","parameters":"'' @ params @ ''"}''\<close>
             and rest = \<open>'',"command_name":"'' @ name @ ''","parameters":"'' @ params @ ''"}''\<close>])
       (simp_all add: snprintf_def is_blank_def)
  have nm: "find_json_value ?line ''command_name'' = Some name"
    by (rule find_json_value_quoted
          [where found = \<open>''"command_name":"'' @ name @ ''","parameters":"'' @ params @ ''"}''\<close>
             and rest = \<open>'',"parameters":"'' @ params @ ''"}''\<close>])
       (simp_all add: snprintf_def is_blank_def assms)
  have \<open>\<not> prefix (''parameters'' @ dquote # CHR '':'' # [])
      (name @ dquote # CHR '','' # ''"parameters":"'' @ params @ ''"}'')\<close>
    using assms(2) by (intro no_prefix_across_quote) simp_all
  then have across: \<open>\<not> prefix (''parameters":'')
      (name @ ''","parameters":"'' @ params @ ''"}'')\<close>
    by simp
  have pa: "find_json_value ?line ''parameters'' = Some params"
    using across
    by (intro find_json_value_quoted
          [where found = \<open>''"parameters":"'' @ params @ ''"}''\<close> and rest = "''}''"])
       (simp_all add: snprintf_def is_blank_def assms strstr_skip)
  show ?thesis
    using assms(1) by (simp only: handle_server_message_def ty nm pa Let_def) simp
qed

lemma handle_server_message_command_frame_no_parameters:
  assumes "command_callback c = Some callback" and "dquote \<notin> set name"
  shows \<open>handle_server_message c (''{"type":"command","command_name":"'' @ name @ ''"}'')
         = c\<lparr>user_data := callback name [] (user_data c)\<rparr>\<close>
proof -
  let ?line = \<open>''{"type":"command","command_name":"'' @ name @ ''"}''\<close>
  have ty: "find_json_value ?line ''type'' = Some ''command''"
    by (rule find_json_value_quoted
          [where found = \<open>''"type":"command","command_name":"'' @ name @ ''"}''\<close>
             and rest = \<open>'',"command_name":"'' @ name @ ''"}''\<close>])
       (simp_all add: snprintf_def is_blank_def)
  have nm: "find_json_value ?line ''command_name'' = Some name"
    by (rule find_json_value_quoted
          [where found = \<open>''"command_name":"'' @ name @ ''"}''\<close> and rest = "''}''"])
       (simp_all add: snprintf_def is_blank_def assms)
  have \<open>\<not> prefix (''parameters'' @ dquote # CHR '':'' # []) (name @ dquote # CHR ''}'' # [])\<close>
    using assms(2) by (intro no_prefix_across_quote) simp_all
  then have across: \<open>\<not> prefix (''parameters":'') (name @ ''"}'')\<close>
    by simp
  have pa: "find_json_value ?line ''parameters'' = None"
    using across by (simp add: find_json_value_def snprintf_def assms strstr_skip)
  show ?thesis
    using assms(1) by (simp only: handle_server_message_def ty nm pa Let_def) simp
qed

subsection \<open>Sending telemetry\<close>

text \<open>
  Claim C2. For every client whose connection flag is clear and every payload,
  \<^verbatim>\<open>iotc_relay_client_send_telemetry\<close> returns \<^verbatim>\<open>IOTC_RELAY_ERROR_DISCONNECTED\<close>, the client
  is unchanged, and the system is unchanged: no call of \<^verbatim>\<open>send\<close> is added to the calls made.
\<close>

theorem send_telemetry_disconnected:
  assumes "\<not> is_connected client"
  shows "iotc_relay_client_send_telemetry sent (Some client) (Some data) os
         = (IOTC_RELAY_ERROR_DISCONNECTED, Some client, os)"
  using assms by (simp add: iotc_relay_client_send_telemetry_def)

text \<open>The client as created, before any connection.\<close>

theorem send_telemetry_disconnected_witness:
  \<open>iotc_relay_client_send_telemetry 21 (Some created_client) (Some ''{"temperature":25.5}'')
       os_start
     = (IOTC_RELAY_ERROR_DISCONNECTED, Some created_client, os_start)\<close>
  using send_telemetry_disconnected
    [of created_client 21 \<open>''{"temperature":25.5}''\<close> os_start]
  by (simp add: created_client_def)

text \<open>
  Claim C6. For every connected client, when \<^verbatim>\<open>send\<close> returns a negative value or fewer
  bytes than the length of the telemetry envelope, \<^verbatim>\<open>iotc_relay_client_send_telemetry\<close>
  returns \<^verbatim>\<open>IOTC_RELAY_ERROR_SEND\<close> and clears the connection flag; \<^verbatim>\<open>send\<close> has been called
  once, with the whole envelope, and nothing else has changed: the rest is not sent again,
  and the socket stays as it was.
\<close>

theorem send_telemetry_failed_write:
  assumes "is_connected client"
    and \<open>sent < 0 \<or> nat sent < length (''{"type":"telemetry","client_id":"'' @ client_id client
            @ ''","data":'' @ data @ ''}'' @ [newline])\<close>
  shows \<open>iotc_relay_client_send_telemetry sent (Some client) (Some data) os
         = (IOTC_RELAY_ERROR_SEND, Some (client\<lparr>is_connected := False\<rparr>),
            os\<lparr>calls := calls os @
               [Sys_send (sockfd client)
                  (''{"type":"telemetry","client_id":"'' @ client_id client
                     @ ''","data":'' @ data @ ''}'' @ [newline])]\<rparr>)\<close>
  using assms
  by (auto simp: iotc_relay_client_send_telemetry_def create_json_telemetry_def snprintf_def
      send_message_def sys_send_def Let_def)

text \<open>A write of 10 bytes of an envelope of 46 bytes.\<close>

theorem send_telemetry_failed_write_witness:
  \<open>iotc_relay_client_send_telemetry 10 (Some logging_client) (Some ''{}'') os_start
     = (IOTC_RELAY_ERROR_SEND, Some (logging_client\<lparr>is_connected := False\<rparr>),
        \<lparr>open_fds = {},
         calls = [Sys_send 3 (''{"type":"telemetry","client_id":"abc","data":{}}'' @ [newline])]\<rparr>)\<close>
  using send_telemetry_failed_write [of logging_client 10 \<open>''{}''\<close> os_start]
  by (simp add: logging_client_def os_start_def)

subsection \<open>Null handles\<close>

text \<open>
  Claim C9. \<^verbatim>\<open>iotc_relay_client_create\<close> returns \<^verbatim>\<open>NULL\<close> when the address or the client
  identifier is \<^verbatim>\<open>NULL\<close>; with a \<^verbatim>\<open>NULL\<close> client, start and send-telemetry return
  \<^verbatim>\<open>IOTC_RELAY_ERROR_INVALID_PARAM\<close>, as send-telemetry does for a \<^verbatim>\<open>NULL\<close> payload, which is
  not among the results the specification lists for it; is-connected returns false; stop and
  destroy change nothing. No system call is made in any of these cases.
\<close>

theorem null_handles:
  "iotc_relay_client_create None ident callback data = None
   \<and> iotc_relay_client_create path None callback data = None
   \<and> iotc_relay_client_start env reconnect_thread_ok None os
       = (IOTC_RELAY_ERROR_INVALID_PARAM, None, os)
   \<and> iotc_relay_client_send_telemetry sent None json_data os
       = (IOTC_RELAY_ERROR_INVALID_PARAM, None, os)
   \<and> iotc_relay_client_send_telemetry sent handle None os
       = (IOTC_RELAY_ERROR_INVALID_PARAM, handle, os)
   \<and> IOTC_RELAY_ERROR_INVALID_PARAM \<notin> spec_send_telemetry_results
   \<and> iotc_relay_client_is_connected None = False
   \<and> iotc_relay_client_stop None os = (None, os)
   \<and> iotc_relay_client_destroy None os = (None, os)"
  by (simp add: iotc_relay_client_create_def iotc_relay_client_start_def
      iotc_relay_client_send_telemetry_def iotc_relay_client_is_connected_def
      iotc_relay_client_stop_def iotc_relay_client_destroy_def spec_send_telemetry_results_def
      split: option.splits)

subsection \<open>Connecting\<close>

lemma connect_to_server_cases:
  "connect_to_server env client os =
     (case socket_ret env of
        None \<Rightarrow>
          (IOTC_RELAY_ERROR_SOCKET, client\<lparr>sockfd := - 1\<rparr>,
           os\<lparr>calls := calls os @
              [Sys_socket (if parse_tcp_target (socket_path client) 256 = None
                           then AF_UNIX else AF_INET)]\<rparr>)
      | Some fd \<Rightarrow>
          (let tcp = parse_tcp_target (socket_path client) 256;
               os1 = os\<lparr>open_fds := insert (int fd) (open_fds os),
                        calls := calls os @ [Sys_socket (if tcp = None then AF_UNIX else AF_INET)]\<rparr>;
               addr = (case tcp of
                         None \<Rightarrow> Sockaddr_un (take (sizeof_sun_path - 1) (socket_path client))
                       | Some (host, port) \<Rightarrow> Sockaddr_in host (ucast port));
               os2 = os1\<lparr>calls := calls os1 @ [Sys_connect (int fd) addr]\<rparr>
           in if tcp \<noteq> None \<and> \<not> inet_pton_ok env \<and> \<not> gethostbyname_ok env
              then (IOTC_RELAY_ERROR_CONNECT, client\<lparr>sockfd := - 1\<rparr>, sys_close (int fd) os1)
              else if \<not> connect_ok env
              then (IOTC_RELAY_ERROR_CONNECT, client\<lparr>sockfd := - 1\<rparr>, sys_close (int fd) os2)
              else
                (case send_message (send_ret env)
                        (client\<lparr>sockfd := int fd, is_connected := True\<rparr>) os2
                        (the (create_json_register (client_id client))) of
                   (r, client3, os3) \<Rightarrow>
                     if \<not> pthread_create_ok env
                     then (IOTC_RELAY_ERROR_SOCKET, client3\<lparr>is_connected := False, sockfd := - 1\<rparr>,
                           sys_close (int fd) os3)
                     else (IOTC_RELAY_SUCCESS, client3, os3))))"
  by (auto simp: connect_to_server_def sys_socket_def sys_connect_def strncpy_def Let_def
      create_json_register_def send_message_def disconnect_from_server_def
      split: option.splits prod.splits)

text \<open>
  Claim C8, as amended. When \<^verbatim>\<open>connect_to_server\<close> does not return success, the socket
  field of the client is \<open>-1\<close> and the descriptor that this call obtained from \<^verbatim>\<open>socket\<close>,
  if any, is closed again, so the call leaves no descriptor open that was not open before.
  The error is \<^verbatim>\<open>IOTC_RELAY_ERROR_SOCKET\<close> when \<^verbatim>\<open>socket\<close> failed,
  \<^verbatim>\<open>IOTC_RELAY_ERROR_CONNECT\<close> when the host of a TCP target could not be resolved or
  \<^verbatim>\<open>connect\<close> failed, and \<^verbatim>\<open>IOTC_RELAY_ERROR_SOCKET\<close> in the remaining case, in which the
  receive thread could not be started.
\<close>

theorem connect_to_server_failure:
  assumes "connect_to_server env client os = (result, client', os')"
    and "result \<noteq> IOTC_RELAY_SUCCESS"
  shows "sockfd client' = - 1
     \<and> open_fds os' = open_fds os - (case socket_ret env of None \<Rightarrow> {} | Some fd \<Rightarrow> {int fd})
     \<and> result =
         (if socket_ret env = None then IOTC_RELAY_ERROR_SOCKET
          else if (parse_tcp_target (socket_path client) 256 \<noteq> None
                     \<and> \<not> inet_pton_ok env \<and> \<not> gethostbyname_ok env)
                  \<or> \<not> connect_ok env
          then IOTC_RELAY_ERROR_CONNECT
          else IOTC_RELAY_ERROR_SOCKET)
     \<and> (result = IOTC_RELAY_ERROR_SOCKET \<and> socket_ret env \<noteq> None) = 
         (socket_ret env \<noteq> None \<and> connect_ok env \<and> \<not> pthread_create_ok env
          \<and> (parse_tcp_target (socket_path client) 256 = None \<or> inet_pton_ok env
               \<or> gethostbyname_ok env))"
proof (cases "socket_ret env")
  case None
  then show ?thesis
    using assms by (auto simp: connect_to_server_cases)
next
  case (Some fd)
  then show ?thesis
    using assms
    by (auto simp: connect_to_server_cases Let_def sys_close_def send_message_def sys_send_def
        split: if_splits prod.splits)
qed

text \<open>A local socket path on which nothing listens: \<^verbatim>\<open>connect\<close> fails.\<close>

theorem connect_to_server_failure_witness:
  "connect_to_server ((env_ok 3)\<lparr>connect_ok := False\<rparr>) created_client os_start
     = (IOTC_RELAY_ERROR_CONNECT, created_client,
        \<lparr>open_fds = {},
         calls = [Sys_socket AF_UNIX, Sys_connect 3 (Sockaddr_un ''/tmp/iotconnect-relay.sock''),
                  Sys_close 3]\<rparr>)
   \<and> sockfd created_client = - 1"
proof -
  have run: "connect_to_server ((env_ok 3)\<lparr>connect_ok := False\<rparr>) created_client os_start
     = (IOTC_RELAY_ERROR_CONNECT, created_client,
        \<lparr>open_fds = {},
         calls = [Sys_socket AF_UNIX, Sys_connect 3 (Sockaddr_un ''/tmp/iotconnect-relay.sock''),
                  Sys_close 3]\<rparr>)"
    by (simp add: connect_to_server_cases env_ok_def created_client_def os_start_def
        parse_tcp_target_def sys_close_def sizeof_sun_path_def Let_def)
  from connect_to_server_failure [OF run] show ?thesis
    using run by simp
qed

text \<open>
  Claim C8 as stated fails on the code: when \<^verbatim>\<open>socket\<close> fails the error returned is
  \<^verbatim>\<open>IOTC_RELAY_ERROR_SOCKET\<close>, not \<^verbatim>\<open>IOTC_RELAY_ERROR_CONNECT\<close>.
\<close>

theorem connect_socket_failure_counterexample:
  "fst (connect_to_server ((env_ok 3)\<lparr>socket_ret := None\<rparr>) created_client os_start)
     = IOTC_RELAY_ERROR_SOCKET
   \<and> IOTC_RELAY_ERROR_SOCKET \<noteq> IOTC_RELAY_ERROR_CONNECT"
  by (simp add: connect_to_server_cases env_ok_def)

subsection \<open>Transport resolver\<close>

lemma strrchr_last:
  assumes "ch \<notin> set port"
  shows "strrchr (host @ ch # port) ch = Some (length host)"
proof -
  have "takeWhile (\<lambda>x. x \<noteq> ch) (rev port @ ch # rev host) = rev port"
    using assms by (subst takeWhile_append2) auto
  then show ?thesis
    by (simp add: strrchr_def)
qed

lemma strrchr_absent: "ch \<notin> set s \<Longrightarrow> strrchr s ch = None"
  by (simp add: strrchr_def)

lemma parse_tcp_target_tcp:
  assumes "host \<noteq> []" and "CHR '':'' \<notin> set port"
  shows "parse_tcp_target (''tcp://'' @ host @ CHR '':'' # port) host_len
         = Some (if length host \<ge> host_len then take (host_len - 1) host else host, atoi port)"
  using assms by (simp add: parse_tcp_target_def strrchr_last strncpy_def)

lemma parse_tcp_target_no_separator:
  "CHR '':'' \<notin> set rest \<Longrightarrow> parse_tcp_target (''tcp://'' @ rest) host_len = None"
  by (simp add: parse_tcp_target_def strrchr_absent)

lemma parse_tcp_target_no_prefix:
  assumes "take 6 path \<noteq> ''tcp://''"
  shows "parse_tcp_target path host_len = None"
proof -
  have len: "length ''tcp://'' = 6"
    by simp
  show ?thesis
    unfolding parse_tcp_target_def Let_def len using assms by simp
qed

lemma parse_tcp_target_Some_iff:
  "(parse_tcp_target path host_len \<noteq> None)
   = (\<exists>host port. path = ''tcp://'' @ host @ CHR '':'' # port \<and> host \<noteq> [] \<and> CHR '':'' \<notin> set port)"
proof
  assume parsed: "parse_tcp_target path host_len \<noteq> None"
  have pfx: "take 6 path = ''tcp://''"
  proof (rule ccontr)
    assume "take 6 path \<noteq> ''tcp://''"
    then have "parse_tcp_target path host_len = None"
      by (rule parse_tcp_target_no_prefix)
    with parsed show False by simp
  qed
  define start where "start = drop 6 path"
  have path: "path = ''tcp://'' @ start"
    unfolding start_def using pfx append_take_drop_id [of 6 path] by simp
  have "CHR '':'' \<in> set start"
  proof (rule ccontr)
    assume "CHR '':'' \<notin> set start"
    then have "parse_tcp_target path host_len = None"
      unfolding path by (rule parse_tcp_target_no_separator)
    then show False using parsed by simp
  qed
  then obtain host port where start: "start = host @ CHR '':'' # port" and port: "CHR '':'' \<notin> set port"
    by (auto dest: split_list_last)
  have "host \<noteq> []"
  proof
    assume "host = []"
    then have "parse_tcp_target path host_len = None"
      using port by (simp add: path start parse_tcp_target_def strrchr_last [of _ _ "[]", simplified])
    then show False using parsed by simp
  qed
  then show "\<exists>host port. path = ''tcp://'' @ host @ CHR '':'' # port \<and> host \<noteq> [] \<and> CHR '':'' \<notin> set port"
    using path start port by blast
next
  assume "\<exists>host port. path = ''tcp://'' @ host @ CHR '':'' # port \<and> host \<noteq> [] \<and> CHR '':'' \<notin> set port"
  then obtain host port where p: "path = ''tcp://'' @ host @ CHR '':'' # port"
      "host \<noteq> []" "CHR '':'' \<notin> set port"
    by blast
  show "parse_tcp_target path host_len \<noteq> None"
    unfolding p(1) using parse_tcp_target_tcp [OF p(2,3), of host_len] by simp
qed

text \<open>
  What \<^verbatim>\<open>atoi\<close> gives for texts that are not port numbers: 0 when no number leads the text,
  the leading number when other characters follow it, a negative \<^verbatim>\<open>int\<close> after a minus sign
  or when the number does not fit 31 bits; and what the conversion to the 16-bit port of the
  socket address keeps of it.
\<close>

lemma atoi_examples:
  "atoi ''5000'' = 5000"
  "atoi ''abc'' = 0"
  "atoi [] = 0"
  "atoi ''12abc'' = 12"
  "sint (atoi ''-1'') = - 1"
  "atoi '' +80'' = 80"
  "sint (atoi ''2147483648'') = - 2147483648"
  "sint (atoi ''9223372036854775808'') = - 1"
  "(ucast (atoi ''9223372036854775808'') :: 16 word) = 65535"
  "(ucast (atoi ''65536'') :: 16 word) = 0"
  by (simp_all add: atoi_def strtol_def LONG_MAX_def LONG_MIN_def isspace_def isdigit_def)

text \<open>
  Claim C5, as amended. The resolver yields a TCP target if and only if the string is
  \<^verbatim>\<open>tcp://\<close>, a host that is not empty, a colon, and a text with no colon in it, so that the
  last colon is the separator; the target is the host (cut to the size of the host buffer)
  and, as the port, the \<^verbatim>\<open>int\<close> that \<^verbatim>\<open>atoi\<close> gives for the text after the colon, which is not
  required to be numeric. A string with the prefix and no colon after it yields no target.
  The resolver is a function of the string alone. With no target, \<^verbatim>\<open>connect_to_server\<close>
  creates a local stream socket and connects it to the string as a path; with a target it
  creates a TCP socket and, once the host is resolved, connects it to the host and the low
  16 bits of the port of the target.
\<close>

theorem parse_tcp_target_syntax:
  "(parse_tcp_target path host_len \<noteq> None)
     = (\<exists>host port. path = ''tcp://'' @ host @ CHR '':'' # port \<and> host \<noteq> [] \<and> CHR '':'' \<notin> set port)
   \<and> (host \<noteq> [] \<and> CHR '':'' \<notin> set port \<longrightarrow>
        parse_tcp_target (''tcp://'' @ host @ CHR '':'' # port) host_len
          = Some (if length host \<ge> host_len then take (host_len - 1) host else host, atoi port))
   \<and> (CHR '':'' \<notin> set rest \<longrightarrow> parse_tcp_target (''tcp://'' @ rest) host_len = None)
   \<and> (parse_tcp_target (socket_path client) 256 = None \<and> socket_ret env = Some fd \<longrightarrow>
        (\<exists>more. calls (snd (snd (connect_to_server env client os)))
           = calls os @ Sys_socket AF_UNIX
               # Sys_connect (int fd)
                   (Sockaddr_un (take (sizeof_sun_path - 1) (socket_path client))) # more))
   \<and> (parse_tcp_target (socket_path client) 256 = Some (h, p) \<and> socket_ret env = Some fd
        \<and> (inet_pton_ok env \<or> gethostbyname_ok env) \<longrightarrow>
        (\<exists>more. calls (snd (snd (connect_to_server env client os)))
           = calls os @ Sys_socket AF_INET
               # Sys_connect (int fd) (Sockaddr_in h (ucast p)) # more))"
proof (intro conjI impI)
  show "(parse_tcp_target path host_len \<noteq> None)
     = (\<exists>host port. path = ''tcp://'' @ host @ CHR '':'' # port \<and> host \<noteq> [] \<and> CHR '':'' \<notin> set port)"
    by (rule parse_tcp_target_Some_iff)
next
  assume "host \<noteq> [] \<and> CHR '':'' \<notin> set port"
  then show "parse_tcp_target (''tcp://'' @ host @ CHR '':'' # port) host_len
          = Some (if length host \<ge> host_len then take (host_len - 1) host else host, atoi port)"
    by (intro parse_tcp_target_tcp) simp_all
next
  assume "CHR '':'' \<notin> set rest"
  then show "parse_tcp_target (''tcp://'' @ rest) host_len = None"
    by (rule parse_tcp_target_no_separator)
next
  assume "parse_tcp_target (socket_path client) 256 = None \<and> socket_ret env = Some fd"
  then show "\<exists>more. calls (snd (snd (connect_to_server env client os)))
           = calls os @ Sys_socket AF_UNIX
               # Sys_connect (int fd)
                   (Sockaddr_un (take (sizeof_sun_path - 1) (socket_path client))) # more"
    by (auto simp: connect_to_server_cases Let_def sys_close_def send_message_def sys_send_def)
next
  assume "parse_tcp_target (socket_path client) 256 = Some (h, p) \<and> socket_ret env = Some fd
        \<and> (inet_pton_ok env \<or> gethostbyname_ok env)"
  then show "\<exists>more. calls (snd (snd (connect_to_server env client os)))
           = calls os @ Sys_socket AF_INET
               # Sys_connect (int fd) (Sockaddr_in h (ucast p)) # more"
    by (auto simp: connect_to_server_cases Let_def sys_close_def send_message_def sys_send_def)
qed

text \<open>A TCP address, a prefix with no port separator, and a socket path.\<close>

theorem parse_tcp_target_syntax_witness:
  "parse_tcp_target ''tcp://192.168.1.10:5000'' 256 = Some (''192.168.1.10'', 5000)
   \<and> parse_tcp_target ''tcp://localhost'' 256 = None
   \<and> parse_tcp_target ''/tmp/iotconnect-relay.sock'' 256 = None"
proof -
  note tcp = parse_tcp_target_syntax
    [where host = "''192.168.1.10''" and port = "''5000''" and host_len = 256,
     THEN conjunct2, THEN conjunct1, THEN mp]
  note bare = parse_tcp_target_syntax
    [where rest = "''localhost''" and host_len = 256,
     THEN conjunct2, THEN conjunct2, THEN conjunct1, THEN mp]
  note iff = parse_tcp_target_syntax
    [where path = "''/tmp/iotconnect-relay.sock''" and host_len = 256, THEN conjunct1]
  have "parse_tcp_target (''tcp://'' @ ''192.168.1.10'' @ CHR '':'' # ''5000'') 256
        = Some (if length ''192.168.1.10'' \<ge> 256 then take (256 - 1) ''192.168.1.10''
                else ''192.168.1.10'', atoi ''5000'')"
    by (rule tcp) simp
  moreover have "atoi ''5000'' = 5000"
    by (simp add: atoi_def strtol_def LONG_MAX_def isspace_def isdigit_def)
  moreover have "parse_tcp_target (''tcp://'' @ ''localhost'') 256 = None"
    by (rule bare) simp
  moreover have "parse_tcp_target ''/tmp/iotconnect-relay.sock'' 256 = None"
    using iff by (cases "parse_tcp_target ''/tmp/iotconnect-relay.sock'' 256") auto
  ultimately show ?thesis
    by simp
qed

text \<open>
  Claim C5 as stated fails on the code: the text after the last colon is not required to be
  numeric. \<^verbatim>\<open>tcp://host:abc\<close>, \<^verbatim>\<open>tcp://host:\<close> and \<^verbatim>\<open>tcp://host:12abc\<close> do not match the
  syntax of the specification, and all three yield a TCP target, with the ports 0, 0 and 12.
\<close>

theorem parse_tcp_target_port_counterexample:
  "parse_tcp_target ''tcp://host:abc'' 256 = Some (''host'', 0)
   \<and> \<not> spec_tcp_syntax ''tcp://host:abc''
   \<and> parse_tcp_target ''tcp://host:'' 256 = Some (''host'', 0)
   \<and> \<not> spec_tcp_syntax ''tcp://host:''
   \<and> parse_tcp_target ''tcp://host:12abc'' 256 = Some (''host'', 12)
   \<and> \<not> spec_tcp_syntax ''tcp://host:12abc''"
  by (simp add: parse_tcp_target_def strrchr_def strncpy_def atoi_def strtol_def LONG_MAX_def
      isspace_def isdigit_def
      spec_tcp_syntax_def)

subsection \<open>The connection flag and the socket\<close>

text \<open>
  Claim C7 does not hold of the code. The client is started and connects with descriptor 3;
  the server closes the connection, so the receive loop clears the connection flag, and
  leaves the socket field at 3 and the descriptor open; the reconnect thread then connects
  again, \<^verbatim>\<open>connect_to_server\<close> overwrites the socket field with the new descriptor 4, and
  descriptor 3 is never closed: two descriptors of the client are open.
\<close>

theorem reconnect_leaves_descriptor_open:
  "(case iotc_relay_client_start (env_ok 3) True (Some created_client) os_start of
      (r1, h1, os1) \<Rightarrow>
        (case h1 of
           None \<Rightarrow> False
         | Some c1 \<Rightarrow>
             r1 = IOTC_RELAY_SUCCESS \<and> is_connected c1 \<and> sockfd c1 = 3 \<and> open_fds os1 = {3}
             \<and> (case receive_thread_func c1 [Recv_closed] of
                  (c2, mb) \<Rightarrow>
                    \<not> is_connected c2 \<and> sockfd c2 = 3
                    \<and> (case reconnect_thread_func [env_ok 4] c2 os1 of
                         (c3, os3) \<Rightarrow>
                           is_connected c3 \<and> sockfd c3 = 4 \<and> open_fds os3 = {3, 4}
                           \<and> Sys_close 3 \<notin> set (calls os3)))))"
  by (simp add: iotc_relay_client_start_def connect_to_server_cases env_ok_def created_client_def
      os_start_def parse_tcp_target_def create_json_register_def snprintf_def send_message_def
      sys_send_def receive_thread_func_def Let_def insert_commute)

text \<open>
  The same state arises from a failed write: \<^verbatim>\<open>send_message\<close> clears the connection flag and
  leaves the socket field and the descriptor as they are.
\<close>

lemma send_failure_leaves_descriptor_open:
  assumes "is_connected client" and "sent < 0"
  shows "(case iotc_relay_client_send_telemetry sent (Some client) (Some data) os of
            (r, h, os') \<Rightarrow>
              h = Some (client\<lparr>is_connected := False\<rparr>) \<and> open_fds os' = open_fds os)"
  using assms
  by (simp add: iotc_relay_client_send_telemetry_def create_json_telemetry_def send_message_def
      sys_send_def Let_def)

text \<open>
  \<^verbatim>\<open>disconnect_from_server\<close> is the one place that clears the flag and closes and invalidates
  the socket together.
\<close>

lemma disconnect_from_server_closes:
  "0 \<le> sockfd client \<Longrightarrow>
   disconnect_from_server client os
     = (client\<lparr>is_connected := False, sockfd := - 1\<rparr>, sys_close (sockfd client) os)"
  by (simp add: disconnect_from_server_def Let_def)

text \<open>
  What does hold: as long as \<^verbatim>\<open>connect_to_server\<close> is entered with the connection flag
  clear, as the reconnect thread and a first start do, every operation keeps a connected
  client's socket field at an open descriptor.
\<close>

lemma connect_to_server_connected_valid:
  assumes "\<not> is_connected client" and "connect_to_server env client os = (result, client', os')"
  shows "connected_valid client' os'"
  using assms
  by (cases "socket_ret env")
     (auto simp: connect_to_server_cases connected_valid_def Let_def sys_close_def
        send_message_def sys_send_def split: if_splits prod.splits)

lemma receive_loop_connection:
  "sockfd (fst (receive_loop c mb rs)) = sockfd c
   \<and> (is_connected (fst (receive_loop c mb rs)) \<longrightarrow> is_connected c)"
proof (induction rs arbitrary: c mb)
  case Nil
  then show ?case by simp
next
  case (Cons r rs)
  show ?case
  proof (cases r)
    case Recv_closed
    then show ?thesis by simp
  next
    case (Recv_bytes buffer)
    let ?cat = "strncat mb buffer (IOTC_RELAY_BUFFER_SIZE * 2 - length mb - 1)"
    obtain c' mb' where d: "drain c ?cat = (c', mb')"
      by (cases "drain c ?cat")
    have "sockfd c' = sockfd c" "is_connected c' = is_connected c"
      using drain_flags [of c ?cat] d by simp_all
    then show ?thesis
      using Cons.IH [of c' mb'] d Recv_bytes by simp
  qed
qed

lemma receive_thread_func_connected_valid:
  "connected_valid c os \<Longrightarrow> connected_valid (fst (receive_thread_func c rs)) os"
  using receive_loop_connection [of c "[]" rs]
  by (auto simp: connected_valid_def receive_thread_func_def split: if_splits)

lemma send_telemetry_connected_valid:
  assumes "connected_valid client os"
    and "iotc_relay_client_send_telemetry sent (Some client) json_data os = (result, Some client', os')"
  shows "connected_valid client' os'"
  using assms
  by (auto simp: iotc_relay_client_send_telemetry_def connected_valid_def create_json_telemetry_def
      send_message_def sys_send_def Let_def split: option.splits if_splits)

lemma stop_connected_valid:
  "iotc_relay_client_stop (Some client) os = (Some client', os') \<Longrightarrow> connected_valid client' os'"
  by (auto simp: iotc_relay_client_stop_def disconnect_from_server_def connected_valid_def Let_def
      split: if_splits)

lemma reconnect_thread_func_connected_valid:
  "connected_valid client os \<Longrightarrow> reconnect_thread_func envs client os = (client', os') \<Longrightarrow>
   connected_valid client' os'"
proof (induction envs arbitrary: client os)
  case Nil
  then show ?case by simp
next
  case (Cons env envs)
  show ?case
  proof (cases "is_running client \<and> \<not> is_connected client")
    case True
    obtain r c1 os1 where c: "connect_to_server env client os = (r, c1, os1)"
      by (cases "connect_to_server env client os")
    then have "connected_valid c1 os1"
      using True by (intro connect_to_server_connected_valid [of client env os r]) simp_all
    then show ?thesis
      using Cons.IH [of c1 os1] Cons.prems(2) True c by simp
  next
    case False
    then show ?thesis
      using Cons.IH [of client os] Cons.prems by (auto split: if_splits)
  qed
qed

lemma start_connected_valid:
  assumes "\<not> is_connected client"
    and "iotc_relay_client_start env ok (Some client) os = (result, Some client', os')"
  shows "connected_valid client' os'"
proof -
  obtain r c1 os1 where c: "connect_to_server env (client\<lparr>is_running := True\<rparr>) os = (r, c1, os1)"
    by (cases "connect_to_server env (client\<lparr>is_running := True\<rparr>) os")
  then have "connected_valid c1 os1"
    using assms(1) by (intro connect_to_server_connected_valid [of _ env os r]) simp_all
  then show ?thesis
    using assms(2) c by (auto simp: iotc_relay_client_start_def connected_valid_def split: if_splits)
qed

text \<open>
  A second start of a connected client enters \<^verbatim>\<open>connect_to_server\<close> with the flag set; when
  \<^verbatim>\<open>socket\<close> then fails, the client is left connected with the socket field at \<open>-1\<close>.
\<close>

lemma restart_breaks_connected_valid:
  "(case iotc_relay_client_start (env_ok 3) True (Some created_client) os_start of
      (r1, h1, os1) \<Rightarrow>
        (case iotc_relay_client_start ((env_ok 4)\<lparr>socket_ret := None\<rparr>) True h1 os1 of
           (r2, h2, os2) \<Rightarrow>
             (case h2 of None \<Rightarrow> False
              | Some c2 \<Rightarrow> is_connected c2 \<and> sockfd c2 = - 1 \<and> open_fds os2 = {3})))"
  by (simp add: iotc_relay_client_start_def connect_to_server_cases env_ok_def created_client_def
      os_start_def parse_tcp_target_def create_json_register_def snprintf_def send_message_def
      sys_send_def Let_def)

end
